theory Spec2Isabelle
  imports Complex_Main "HOL-Library.Log_Nat"
begin

section \<open>JavaScript numbers and strings\<close>

text \<open>
  A JavaScript number is an IEEE 754 double. \<open>Fin q\<close> is the finite double whose value
  is the rational \<open>q\<close>; the other three are the non-finite values. Every arithmetic
  operation rounds its exact result to the nearest double, ties to even (\<open>fl\<close>). The
  sign of zero is not modelled: no operation used here observes \<open>-0\<close>.
\<close>

datatype jsnum = Fin rat | PInf | NInf | NaN

text \<open>The nearest integer, a tie going to the even one.\<close>

definition round_even :: "rat \<Rightarrow> int" where
  "round_even x =
     (let f = \<lfloor>x\<rfloor>; d = x - of_int f
      in if d < 1 / 2 then f else if 1 / 2 < d then f + 1 else if even f then f else f + 1)"

text \<open>The binary exponent of a positive rational: \<open>2 powi ilog2 x \<le> x < 2 powi (ilog2 x + 1)\<close>.\<close>

definition ilog2 :: "rat \<Rightarrow> int" where
  "ilog2 x = (if 1 \<le> x then bitlen \<lfloor>x\<rfloor> - 1 else - bitlen (\<lceil>1 / x\<rceil> - 1))"

text \<open>
  Rounding to binary64: 53 significant bits, the exponent no smaller than \<open>-1022\<close>
  (gradual underflow below), and infinity when the rounded magnitude reaches \<open>2^1024\<close>.
\<close>

definition fl :: "rat \<Rightarrow> jsnum" where
  "fl x =
     (if x = 0 then Fin 0
      else (let e = max (ilog2 \<bar>x\<bar>) (- 1022);
                u = 2 powi (e - 52);
                r = of_int (round_even (x / u)) * u
            in if 2 ^ 1024 \<le> \<bar>r\<bar> then (if 0 < x then PInf else NInf) else Fin r))"

text \<open>A non-negative integer read as a number.\<close>

definition js_of_nat :: "nat \<Rightarrow> jsnum" where
  "js_of_nat n = fl (of_nat n)"

fun js_add :: "jsnum \<Rightarrow> jsnum \<Rightarrow> jsnum" where
  "js_add NaN _ = NaN"
| "js_add _ NaN = NaN"
| "js_add (Fin a) (Fin b) = fl (a + b)"
| "js_add (Fin a) PInf = PInf"
| "js_add (Fin a) NInf = NInf"
| "js_add PInf NInf = NaN"
| "js_add PInf _ = PInf"
| "js_add NInf PInf = NaN"
| "js_add NInf _ = NInf"

fun js_sub :: "jsnum \<Rightarrow> jsnum \<Rightarrow> jsnum" where
  "js_sub NaN _ = NaN"
| "js_sub _ NaN = NaN"
| "js_sub (Fin a) (Fin b) = fl (a - b)"
| "js_sub (Fin a) PInf = NInf"
| "js_sub (Fin a) NInf = PInf"
| "js_sub PInf PInf = NaN"
| "js_sub PInf _ = PInf"
| "js_sub NInf NInf = NaN"
| "js_sub NInf _ = NInf"

fun js_mul :: "jsnum \<Rightarrow> jsnum \<Rightarrow> jsnum" where
  "js_mul NaN _ = NaN"
| "js_mul _ NaN = NaN"
| "js_mul (Fin a) (Fin b) = fl (a * b)"
| "js_mul (Fin a) PInf = (if a = 0 then NaN else if 0 < a then PInf else NInf)"
| "js_mul (Fin a) NInf = (if a = 0 then NaN else if 0 < a then NInf else PInf)"
| "js_mul PInf (Fin b) = (if b = 0 then NaN else if 0 < b then PInf else NInf)"
| "js_mul NInf (Fin b) = (if b = 0 then NaN else if 0 < b then NInf else PInf)"
| "js_mul PInf PInf = PInf"
| "js_mul PInf NInf = NInf"
| "js_mul NInf PInf = NInf"
| "js_mul NInf NInf = PInf"

fun js_div :: "jsnum \<Rightarrow> jsnum \<Rightarrow> jsnum" where
  "js_div NaN _ = NaN"
| "js_div _ NaN = NaN"
| "js_div (Fin a) (Fin b) =
     (if b = 0 then (if a = 0 then NaN else if 0 < a then PInf else NInf) else fl (a / b))"
| "js_div (Fin a) _ = Fin 0"
| "js_div PInf (Fin b) = (if 0 \<le> b then PInf else NInf)"
| "js_div NInf (Fin b) = (if 0 \<le> b then NInf else PInf)"
| "js_div _ _ = NaN"

text \<open>Truncation towards zero, the first step of ECMAScript's ToInt32.\<close>

definition trunc :: "rat \<Rightarrow> int" where
  "trunc q = (if 0 \<le> q then \<lfloor>q\<rfloor> else \<lceil>q\<rceil>)"

text \<open>
  The idiom \<open>~~x\<close>: ToInt32 applied twice through bitwise NOT. A non-finite operand
  gives 0; a finite one is truncated and wrapped into the signed 32-bit range.
\<close>

fun to_int32 :: "jsnum \<Rightarrow> int" where
  "to_int32 (Fin q) =
     (let m = trunc q mod 2 ^ 32 in if 2 ^ 31 \<le> m then m - 2 ^ 32 else m)"
| "to_int32 _ = 0"

section \<open>system.js: the resource sampler\<close>

text \<open>One element of \<open>os.cpus()\<close>: the \<open>times\<close> object of a core, in milliseconds.\<close>

record cpu_times =
  user :: nat
  nice :: nat
  sys :: nat
  idle :: nat
  irq :: nat

text \<open>
  Lines 31 to 44 of \<open>getCpuUsage\<close>: the \<open>forEach\<close> adds every field of \<open>times\<close> to
  \<open>totalTick\<close>, in the order of the fields, and the idle field to \<open>totalIdle\<close>; both are
  then divided by the number of cores. Each \<open>+=\<close> and each division is an operation on
  doubles. With no core at all both quotients are \<open>0/0\<close>, that is \<open>NaN\<close>.
\<close>

definition cpu_ticks :: "cpu_times list \<Rightarrow> jsnum \<times> jsnum" where
  "cpu_ticks cpus =
     foldl (\<lambda>(totalIdle, totalTick) cpu.
              (js_add totalIdle (js_of_nat (idle cpu)),
               js_add (js_add (js_add (js_add (js_add totalTick (js_of_nat (user cpu)))
                 (js_of_nat (nice cpu))) (js_of_nat (sys cpu))) (js_of_nat (idle cpu)))
                 (js_of_nat (irq cpu))))
           (Fin 0, Fin 0) cpus"

definition cpu_reading :: "cpu_times list \<Rightarrow> jsnum \<times> jsnum" where
  "cpu_reading cpus =
     (let (totalIdle, totalTick) = cpu_ticks cpus
      in (js_div totalIdle (js_of_nat (length cpus)),
          js_div totalTick (js_of_nat (length cpus))))"

text \<open>
  \<open>getCpuUsage\<close>, with the module variable \<open>previousCpuInfo\<close> passed in and returned:
  the pair is \<open>(idle, total)\<close>. \<open>None\<close> as the result is JavaScript's \<open>null\<close>.
\<close>

definition getCpuUsage ::
  "cpu_times list \<Rightarrow> (jsnum \<times> jsnum) option \<Rightarrow> int option \<times> (jsnum \<times> jsnum) option" where
  "getCpuUsage cpus previousCpuInfo =
     (let (idle_now, total_now) = cpu_reading cpus
      in case previousCpuInfo of
           None \<Rightarrow> (None, Some (idle_now, total_now))
         | Some (idle_prev, total_prev) \<Rightarrow>
             (let idleDifference = js_sub idle_now idle_prev;
                  totalDifference = js_sub total_now total_prev;
                  cpuPercentage =
                    100 - to_int32 (js_div (js_mul (Fin 100) idleDifference) totalDifference)
              in (Some (max 0 (min 100 cpuPercentage)), Some (idle_now, total_now))))"

section \<open>Strings\<close>

text \<open>
  Strings are lists of 8-bit code units. \<open>is_ws\<close> is the white space of
  \<open>String.prototype.trim\<close> and of the regular expression class \<open>\s\<close> among them:
  tab, line feed, vertical tab, form feed, carriage return, space and no-break space.
\<close>

definition is_ws :: "char \<Rightarrow> bool" where
  "is_ws c = (of_char c \<in> {9, 10, 11, 12, 13, 32, 160 :: nat})"

definition trim :: "string \<Rightarrow> string" where
  "trim s = rev (dropWhile is_ws (rev (dropWhile is_ws s)))"

text \<open>\<open>s.split(c)\<close> for a one-character separator: never empty, \<open>''''\<close> gives \<open>['''']\<close>.\<close>

fun split_on :: "char \<Rightarrow> string \<Rightarrow> string list" where
  "split_on c [] = [[]]"
| "split_on c (x # xs) =
     (if x = c then [] # split_on c xs
      else (case split_on c xs of [] \<Rightarrow> [[x]] | w # ws \<Rightarrow> (x # w) # ws))"

text \<open>\<open>s.split(/\s+/)\<close>: the separators are the maximal runs of white space.\<close>

function split_ws :: "string \<Rightarrow> string list" where
  "split_ws [] = [[]]"
| "split_ws (x # xs) =
     (if is_ws x then [] # split_ws (dropWhile is_ws xs)
      else (case split_ws xs of [] \<Rightarrow> [[x]] | w # ws \<Rightarrow> (x # w) # ws))"
  by pat_completeness auto
termination
  by (relation "measure length") (auto simp: length_dropWhile_le less_Suc_eq_le)

text \<open>\<open>s.includes(t)\<close>.\<close>

fun starts_with :: "string \<Rightarrow> string \<Rightarrow> bool" where
  "starts_with s [] = True"
| "starts_with [] (y # ys) = False"
| "starts_with (x # xs) (y # ys) = (x = y \<and> starts_with xs ys)"

fun js_includes :: "string \<Rightarrow> string \<Rightarrow> bool" where
  "js_includes [] t = starts_with [] t"
| "js_includes (x # xs) t = (starts_with (x # xs) t \<or> js_includes xs t)"

text \<open>Decimal rendering of a number in a template literal.\<close>

fun show_nat :: "nat \<Rightarrow> string" where
  "show_nat n =
     (if n < 10 then [char_of (48 + n)] else show_nat (n div 10) @ [char_of (48 + n mod 10)])"

definition show_int :: "int \<Rightarrow> string" where
  "show_int i = (if i < 0 then CHR ''-'' # show_nat (nat (- i)) else show_nat (nat i))"

text \<open>A number that may be \<open>NaN\<close> (\<open>None\<close>), as \<open>parseInt\<close> returns it.\<close>

definition show_num :: "int option \<Rightarrow> string" where
  "show_num v = (case v of None \<Rightarrow> ''NaN'' | Some i \<Rightarrow> show_int i)"

text \<open>
  \<open>parseInt(s)\<close> with no radix: leading white space is skipped, a sign is read, a
  \<open>0x\<close> or \<open>0X\<close> prefix selects base 16, and the longest prefix of digits is the value;
  with no digit the result is \<open>NaN\<close>.
\<close>

definition digit_of :: "nat \<Rightarrow> char \<Rightarrow> nat option" where
  "digit_of base c =
     (let k = of_char c :: nat;
          v = (if 48 \<le> k \<and> k \<le> 57 then Some (k - 48)
               else if 97 \<le> k \<and> k \<le> 122 then Some (k - 87)
               else if 65 \<le> k \<and> k \<le> 90 then Some (k - 55)
               else None)
      in case v of None \<Rightarrow> None | Some d \<Rightarrow> if d < base then Some d else None)"

definition digits_value :: "nat \<Rightarrow> string \<Rightarrow> nat" where
  "digits_value base ds =
     foldl (\<lambda>acc c. acc * base + (case digit_of base c of None \<Rightarrow> 0 | Some d \<Rightarrow> d)) 0 ds"

definition parseInt :: "string \<Rightarrow> int option" where
  "parseInt s =
     (let s1 = dropWhile is_ws s;
          (negative, s2) =
            (case s1 of
               [] \<Rightarrow> (False, s1)
             | c # r \<Rightarrow> if c = CHR ''-'' then (True, r)
                        else if c = CHR ''+'' then (False, r) else (False, s1));
          (base, s3) =
            (if starts_with s2 ''0x'' \<or> starts_with s2 ''0X'' then (16, drop 2 s2)
             else (10, s2));
          ds = takeWhile (\<lambda>c. digit_of base c \<noteq> None) s3
      in if ds = [] then None
         else Some (if negative then - int (digits_value base ds)
                    else int (digits_value base ds)))"

text \<open>\<open>xs.join(sep)\<close>.\<close>

fun join :: "string \<Rightarrow> string list \<Rightarrow> string" where
  "join sep [] = []"
| "join sep [x] = x"
| "join sep (x # y # ys) = x @ sep @ join sep (y # ys)"

section \<open>system.js: disk usage, classification and the health check\<close>

datatype severity = Healthy | Warning | Critical

text \<open>The order of the glossary: Healthy below Warning below Critical.\<close>

fun sev_rank :: "severity \<Rightarrow> nat" where
  "sev_rank Healthy = 0"
| "sev_rank Warning = 1"
| "sev_rank Critical = 2"

instantiation severity :: linorder
begin

definition less_eq_severity :: "severity \<Rightarrow> severity \<Rightarrow> bool" where
  "less_eq_severity a b = (sev_rank a \<le> sev_rank b)"

definition less_severity :: "severity \<Rightarrow> severity \<Rightarrow> bool" where
  "less_severity a b = (sev_rank a < sev_rank b)"

instance
proof
  fix x y z :: severity
  show "(x < y) = (x \<le> y \<and> \<not> y \<le> x)"
    by (auto simp: less_eq_severity_def less_severity_def)
  show "x \<le> x"
    by (simp add: less_eq_severity_def)
  show "x \<le> y \<Longrightarrow> y \<le> z \<Longrightarrow> x \<le> z"
    by (simp add: less_eq_severity_def)
  show "x \<le> y \<Longrightarrow> y \<le> x \<Longrightarrow> x = y"
    by (cases x; cases y) (simp_all add: less_eq_severity_def)
  show "x \<le> y \<or> y \<le> x"
    by (auto simp: less_eq_severity_def)
qed

end

text \<open>
  The six module constants, each \<open>parseInt(process.env.X) || default\<close>; they are
  configured independently of one another.
\<close>

record thresholds =
  RAM_WARNING_THRESHOLD :: int
  RAM_CRITICAL_THRESHOLD :: int
  CPU_WARNING_THRESHOLD :: int
  CPU_CRITICAL_THRESHOLD :: int
  DISK_WARNING_THRESHOLD :: int
  DISK_CRITICAL_THRESHOLD :: int

definition default_thresholds :: thresholds where
  "default_thresholds =
     \<lparr>RAM_WARNING_THRESHOLD = 85, RAM_CRITICAL_THRESHOLD = 95,
      CPU_WARNING_THRESHOLD = 80, CPU_CRITICAL_THRESHOLD = 90,
      DISK_WARNING_THRESHOLD = 85, DISK_CRITICAL_THRESHOLD = 95\<rparr>"

text \<open>
  The object \<open>getRamUsage\<close> returns. It is an input of the model: its fields are rounded
  quotients of \<open>os.totalmem()\<close> and \<open>os.freemem()\<close>, integers on every host with memory.
\<close>

record ram_info =
  totalMemMB :: int
  usedMemMB :: int
  usagePercent :: int
  freeMem :: int

text \<open>
  The object \<open>getDiskUsage\<close> returns; each field is a result of \<open>parseInt\<close>, so it may be
  \<open>NaN\<close> (\<open>None\<close>). The source calls the last field \<open>usagePercent\<close> as well.
\<close>

record disk_info =
  totalGB :: "int option"
  usedGB :: "int option"
  availGB :: "int option"
  diskUsagePercent :: "int option"

text \<open>
  \<open>getDiskUsage\<close>. The argument is the outcome of \<open>execPromise('df -BG / | tail -1')\<close>:
  \<open>None\<close> when the promise rejects (the \<open>catch\<close> returns \<open>undefined\<close>), the standard output
  otherwise. \<open>replace('G', '')\<close> deletes the first \<open>G\<close> only.
\<close>

definition getDiskUsage :: "string option \<Rightarrow> disk_info option" where
  "getDiskUsage df =
     (case df of
        None \<Rightarrow> None
      | Some stdout \<Rightarrow>
          (let parts = split_ws (trim stdout)
           in if 5 \<le> length parts
              then Some \<lparr>totalGB = parseInt (remove1 CHR ''G'' (parts ! 1)),
                         usedGB = parseInt (remove1 CHR ''G'' (parts ! 2)),
                         availGB = parseInt (remove1 CHR ''G'' (parts ! 3)),
                         diskUsagePercent = parseInt (remove1 CHR ''%'' (parts ! 4))\<rparr>
              else None))"

text \<open>\<open>x >= t\<close> where \<open>x\<close> may be \<open>NaN\<close>: every comparison with \<open>NaN\<close> is false.\<close>

definition num_ge :: "int option \<Rightarrow> int \<Rightarrow> bool" where
  "num_ge x t = (case x of None \<Rightarrow> False | Some v \<Rightarrow> t \<le> v)"

text \<open>
  Lines 127 to 157 of \<open>checkSystemHealth\<close>: the three checks update \<open>status\<close> and push onto
  \<open>warnings\<close> in the order of the source, RAM, then CPU, then disk.
\<close>

definition assess ::
  "thresholds \<Rightarrow> int \<Rightarrow> ram_info \<Rightarrow> disk_info option \<Rightarrow> severity \<times> string list" where
  "assess th cpuUsage ramInfo diskInfo =
     (let status = Healthy;
          warnings = [];
          (status, warnings) =
            (if RAM_CRITICAL_THRESHOLD th \<le> usagePercent ramInfo
             then (Critical,
                   warnings @ [''RAM critically low: '' @ show_int (usagePercent ramInfo)
                     @ ''% used ('' @ show_int (usedMemMB ramInfo) @ ''MB / ''
                     @ show_int (totalMemMB ramInfo) @ ''MB)''])
             else if RAM_WARNING_THRESHOLD th \<le> usagePercent ramInfo
             then (Warning,
                   warnings @ [''RAM usage high: '' @ show_int (usagePercent ramInfo)
                     @ ''% used ('' @ show_int (usedMemMB ramInfo) @ ''MB / ''
                     @ show_int (totalMemMB ramInfo) @ ''MB)''])
             else (status, warnings));
          (status, warnings) =
            (if CPU_CRITICAL_THRESHOLD th \<le> cpuUsage
             then ((if status = Critical then Critical else Critical),
                   warnings @ [''CPU critically high: '' @ show_int cpuUsage @ ''%''])
             else if CPU_WARNING_THRESHOLD th \<le> cpuUsage
             then ((if status = Critical then Critical else Warning),
                   warnings @ [''CPU usage high: '' @ show_int cpuUsage @ ''%''])
             else (status, warnings));
          (status, warnings) =
            (case diskInfo of
               None \<Rightarrow> (status, warnings)
             | Some d \<Rightarrow>
                 if num_ge (diskUsagePercent d) (DISK_CRITICAL_THRESHOLD th)
                 then (Critical,
                       warnings @ [''Disk storage critically low: ''
                         @ show_num (diskUsagePercent d) @ ''% used (''
                         @ show_num (availGB d) @ ''GB free)''])
                 else if num_ge (diskUsagePercent d) (DISK_WARNING_THRESHOLD th)
                 then ((if status = Critical then Critical else Warning),
                       warnings @ [''Disk storage low: ''
                         @ show_num (diskUsagePercent d) @ ''% used (''
                         @ show_num (availGB d) @ ''GB free)''])
                 else (status, warnings))
      in (status, warnings))"

section \<open>The store, the notifier and the state of the process\<close>

datatype outcome = Success | Failed

text \<open>A row of table \<open>tests\<close> (\<open>target_col\<close> is the column \<open>target\<close>).\<close>

record test_row =
  test_type :: string
  test_name :: string
  target_col :: string
  status :: outcome
  response_time :: nat
  error_message :: "string option"
  is_recovery :: bool

text \<open>
  A row of table \<open>system_metrics\<close> (\<open>metric_status\<close> is the column \<open>status\<close>). SQLite
  stores a \<open>NaN\<close> as \<open>NULL\<close>, so \<open>None\<close> in a disk column is either.
\<close>

record metric_row =
  cpu_usage :: int
  ram_used_mb :: int
  ram_total_mb :: int
  ram_usage_percent :: int
  disk_used_gb :: "int option"
  disk_total_gb :: "int option"
  disk_usage_percent :: "int option"
  metric_status :: severity
  warning_message :: "string option"

text \<open>
  The texts handed to \<open>sendToAllUsers\<close>, by the values interpolated into them:
  the two HTTP texts and the two TCP texts carry the test name and the response time,
  the failure texts the error message as well.
\<close>

datatype message =
    Http_failed string string nat
  | Http_recovery string nat
  | Tcp_failed string string nat
  | Tcp_recovery string nat
  | System_alert severity int ram_info "disk_info option" "string list"
  | System_recovery int ram_info "disk_info option"

text \<open>What the process does to its collaborators, in the order it does it.\<close>

datatype event =
    Query_test string string
  | Insert_test test_row
  | Query_metric
  | Insert_metric metric_row
  | Send message

text \<open>
  Both tables are kept in insertion order, which is the order of their \<open>timestamp\<close>
  column when successive cycles fall into different seconds.
\<close>

record state =
  previousCpuInfo :: "(jsnum \<times> jsnum) option"
  tests :: "test_row list"
  system_metrics :: "metric_row list"
  log :: "event list"

definition initial_state :: state where
  "initial_state = \<lparr>previousCpuInfo = None, tests = [], system_metrics = [], log = []\<rparr>"

definition sendToAllUsers :: "message \<Rightarrow> state \<Rightarrow> state" where
  "sendToAllUsers m s = s\<lparr>log := log s @ [Send m]\<rparr>"

text \<open>
  The prepared statement \<open>getLastTestResult\<close>: the newest row with this target and
  type. Its two parameters are bound in the order \<open>(target, test_type)\<close>.
\<close>

definition getLastTestResult :: "string \<Rightarrow> string \<Rightarrow> state \<Rightarrow> test_row option \<times> state" where
  "getLastTestResult tgt ty s =
     ((case filter (\<lambda>r. target_col r = tgt \<and> test_type r = ty) (tests s) of
         [] \<Rightarrow> None
       | r # rs \<Rightarrow> Some (last (r # rs))),
      s\<lparr>log := log s @ [Query_test tgt ty]\<rparr>)"

definition insertTestResult :: "test_row \<Rightarrow> state \<Rightarrow> state" where
  "insertTestResult r s = s\<lparr>tests := tests s @ [r], log := log s @ [Insert_test r]\<rparr>"

definition getLastSystemStatus :: "state \<Rightarrow> metric_row option \<times> state" where
  "getLastSystemStatus s =
     ((case system_metrics s of [] \<Rightarrow> None | r # rs \<Rightarrow> Some (last (r # rs))),
      s\<lparr>log := log s @ [Query_metric]\<rparr>)"

definition insertSystemMetric :: "metric_row \<Rightarrow> state \<Rightarrow> state" where
  "insertSystemMetric r s =
     s\<lparr>system_metrics := system_metrics s @ [r], log := log s @ [Insert_metric r]\<rparr>"

subsection \<open>checkSystemHealth\<close>

text \<open>What one call of \<open>checkSystemHealth\<close> reads from the host.\<close>

record sys_env =
  cpus :: "cpu_times list"
  ram :: ram_info
  df :: "string option"

text \<open>
  The object returned: \<open>{status: 'initializing'}\<close> or the checked sample. The \<open>catch\<close>
  branch is not part of the model: \<open>getDiskUsage\<close> catches its own failure,
  \<open>sendMessage\<close> swallows delivery errors, and the store accepts every insert of integers.
\<close>

datatype health_result =
    Initializing
  | Checked severity int ram_info "disk_info option" "string list option"

definition checkSystemHealth :: "thresholds \<Rightarrow> sys_env \<Rightarrow> state \<Rightarrow> health_result \<times> state" where
  "checkSystemHealth th env s0 =
     (let (cpuUsage_opt, baseline) = getCpuUsage (cpus env) (previousCpuInfo s0);
          s1 = s0\<lparr>previousCpuInfo := baseline\<rparr>;
          ramInfo = ram env;
          diskInfo = getDiskUsage (df env)
      in case cpuUsage_opt of
           None \<Rightarrow> (Initializing, s1)
         | Some cpuUsage \<Rightarrow>
             (let (status, warnings) = assess th cpuUsage ramInfo diskInfo;
                  warningMessage = (if warnings \<noteq> [] then Some (join ''; '' warnings) else None);
                  (lastStatus, s2) = getLastSystemStatus s1;
                  statusChanged =
                    (case lastStatus of None \<Rightarrow> True | Some r \<Rightarrow> metric_status r \<noteq> status);
                  s3 = (if statusChanged \<and> status \<noteq> Healthy
                        then sendToAllUsers
                               (System_alert status cpuUsage ramInfo diskInfo warnings) s2
                        else s2);
                  s4 = (if statusChanged \<and> status = Healthy
                           \<and> (case lastStatus of None \<Rightarrow> False
                                | Some r \<Rightarrow> metric_status r \<noteq> Healthy)
                        then sendToAllUsers (System_recovery cpuUsage ramInfo diskInfo) s3
                        else s3);
                  s5 = insertSystemMetric
                         \<lparr>cpu_usage = cpuUsage,
                          ram_used_mb = usedMemMB ramInfo,
                          ram_total_mb = totalMemMB ramInfo,
                          ram_usage_percent = usagePercent ramInfo,
                          disk_used_gb = (case diskInfo of None \<Rightarrow> None | Some d \<Rightarrow> usedGB d),
                          disk_total_gb = (case diskInfo of None \<Rightarrow> None | Some d \<Rightarrow> totalGB d),
                          disk_usage_percent =
                            (case diskInfo of None \<Rightarrow> None | Some d \<Rightarrow> diskUsagePercent d),
                          metric_status = status,
                          warning_message = warningMessage\<rparr> s4
              in (Checked status cpuUsage ramInfo diskInfo
                    (if warnings \<noteq> [] then Some warnings else None), s5)))"

section \<open>tests.js: configuration and probes\<close>

record test_config =
  name :: string
  target :: string

text \<open>\<open>a || b\<close> on strings: the empty string is the only falsy one.\<close>

definition str_or :: "string \<Rightarrow> string \<Rightarrow> string" where
  "str_or a b = (if a \<noteq> [] then a else b)"

text \<open>
  The body of the \<open>for\<close> loop of \<open>parseTestConfig\<close>; the loop itself is
  \<open>parse_loop\<close>, whose second argument is the array \<open>tests\<close> being filled. \<open>split\<close> never returns an empty
  array, so \<open>parts[0]\<close>, \<open>pop()\<close> and \<open>[0]\<close> are all defined.
\<close>

definition parse_entry :: "string \<Rightarrow> test_config" where
  "parse_entry config =
     (let parts = map trim (split_on CHR ''|'' config)
      in if length parts = 2
         then \<lparr>name = parts ! 0, target = parts ! 1\<rparr>
         else (let tgt = parts ! 0;
                   nm = str_or (last (split_on CHR ''/'' tgt))
                          (str_or (hd (split_on CHR '':'' tgt)) tgt)
               in \<lparr>name = nm, target = tgt\<rparr>))"

fun parse_loop :: "string list \<Rightarrow> test_config list \<Rightarrow> test_config list" where
  "parse_loop [] acc = acc"
| "parse_loop (config # configs) acc = parse_loop configs (acc @ [parse_entry config])"

definition parseTestConfig :: "string \<Rightarrow> test_config list" where
  "parseTestConfig configString =
     (let configs = filter (\<lambda>item. item \<noteq> []) (map trim (split_on CHR '','' configString))
      in parse_loop configs [])"

text \<open>
  How \<open>fetch\<close> ends: a response with its status code, or an exception with its \<open>name\<close>
  and \<open>message\<close>.
\<close>

datatype fetch_outcome = Response nat | Thrown string string

text \<open>The object a probe returns: \<open>{status, responseTime, errorMessage, name}\<close>.\<close>

record probe_result =
  res_status :: outcome
  responseTime :: nat
  errorMessage :: "string option"
  res_name :: string

text \<open>An optional string interpolated into a template literal.\<close>

definition show_str :: "string option \<Rightarrow> string" where
  "show_str v = (case v of None \<Rightarrow> ''null'' | Some t \<Rightarrow> t)"

text \<open>
  \<open>runHttpTest\<close>. The outcome of \<open>fetch\<close> and the rounded elapsed time are inputs.
  In each branch the last result is read, the row inserted, and then the message sent.
\<close>

definition runHttpTest ::
  "test_config \<Rightarrow> fetch_outcome \<Rightarrow> nat \<Rightarrow> state \<Rightarrow> probe_result \<times> state" where
  "runHttpTest testConfig fetched elapsed s0 =
     (let nm = name testConfig; url = target testConfig; testType = ''http''
      in case fetched of
           Response code \<Rightarrow>
             (let st = (if code < 400 then Success else Failed);
                  err = (if st = Failed then Some (''HTTP '' @ show_nat code) else None);
                  (lastResult, s1) = getLastTestResult url testType s0;
                  isRecovery = (case lastResult of None \<Rightarrow> False | Some r \<Rightarrow> status r = Failed);
                  s2 = insertTestResult
                         \<lparr>test_type = testType, test_name = nm, target_col = url, status = st,
                          response_time = elapsed, error_message = err,
                          is_recovery = isRecovery\<rparr> s1;
                  s3 = (if st = Failed \<or> isRecovery
                        then sendToAllUsers
                               (if isRecovery then Http_recovery nm elapsed
                                else Http_failed nm (show_str err) elapsed) s2
                        else s2)
              in (\<lparr>res_status = st, responseTime = elapsed, errorMessage = err,
                   res_name = nm\<rparr>, s3))
         | Thrown ename emsg \<Rightarrow>
             (let err = (if ename = ''AbortError'' then ''Request timeout''
                         else if ename = ''TypeError'' \<and> js_includes emsg ''fetch''
                         then ''Network error - cannot reach server''
                         else str_or emsg ''Unknown error'');
                  (lastResult, s1) = getLastTestResult url testType s0;
                  isRecovery = False;
                  s2 = insertTestResult
                         \<lparr>test_type = testType, test_name = nm, target_col = url,
                          status = Failed, response_time = elapsed, error_message = Some err,
                          is_recovery = False\<rparr> s1;
                  s3 = sendToAllUsers (Http_failed nm err elapsed) s2
              in (\<lparr>res_status = Failed, responseTime = elapsed, errorMessage = Some err,
                   res_name = nm\<rparr>, s3)))"

text \<open>
  How the connection attempt ends: the \<open>connect\<close> callback, the timer, or the
  \<open>error\<close> event with the error's \<open>message\<close> and \<open>code\<close>. Each clears or outlives the
  others, so exactly one of the three handlers runs.
\<close>

datatype tcp_outcome = Connected | Timed_out | Socket_error string string

definition runTcpTest ::
  "test_config \<Rightarrow> tcp_outcome \<Rightarrow> nat \<Rightarrow> state \<Rightarrow> probe_result \<times> state" where
  "runTcpTest testConfig ended elapsed s0 =
     (let nm = name testConfig; tgt = target testConfig; testType = ''tcp''
      in case ended of
           Timed_out \<Rightarrow>
             (let (lastResult, s1) = getLastTestResult tgt testType s0;
                  isRecovery = False;
                  s2 = insertTestResult
                         \<lparr>test_type = testType, test_name = nm, target_col = tgt,
                          status = Failed, response_time = elapsed,
                          error_message = Some ''Connection timeout'',
                          is_recovery = False\<rparr> s1;
                  s3 = sendToAllUsers (Tcp_failed nm ''Connection timeout'' elapsed) s2
              in (\<lparr>res_status = Failed, responseTime = elapsed,
                   errorMessage = Some ''Connection timeout'', res_name = nm\<rparr>, s3))
         | Connected \<Rightarrow>
             (let (lastResult, s1) = getLastTestResult tgt testType s0;
                  isRecovery = (case lastResult of None \<Rightarrow> False | Some r \<Rightarrow> status r = Failed);
                  s2 = insertTestResult
                         \<lparr>test_type = testType, test_name = nm, target_col = tgt,
                          status = Success, response_time = elapsed, error_message = None,
                          is_recovery = isRecovery\<rparr> s1;
                  s3 = (if isRecovery then sendToAllUsers (Tcp_recovery nm elapsed) s2 else s2)
              in (\<lparr>res_status = Success, responseTime = elapsed, errorMessage = None,
                   res_name = nm\<rparr>, s3))
         | Socket_error emsg ecode \<Rightarrow>
             (let err = str_or emsg ecode;
                  (lastResult, s1) = getLastTestResult tgt testType s0;
                  isRecovery = False;
                  s2 = insertTestResult
                         \<lparr>test_type = testType, test_name = nm, target_col = tgt,
                          status = Failed, response_time = elapsed, error_message = Some err,
                          is_recovery = False\<rparr> s1;
                  s3 = sendToAllUsers (Tcp_failed nm err elapsed) s2
              in (\<lparr>res_status = Failed, responseTime = elapsed, errorMessage = Some err,
                   res_name = nm\<rparr>, s3)))"

section \<open>Notions used in the statements\<close>

text \<open>
  \<open>startMonitoring\<close> (scheduler.js) calls \<open>checkSystemHealth\<close> once to seed the baseline
  and then again on every tick. \<open>run_checks\<close> is that sequence of calls, one per reading
  of the host, with the results in order.
\<close>

fun run_checks :: "thresholds \<Rightarrow> sys_env list \<Rightarrow> state \<Rightarrow> health_result list \<times> state" where
  "run_checks th [] s = ([], s)"
| "run_checks th (env # envs) s =
     (let (r, s1) = checkSystemHealth th env s;
          (rs, s2) = run_checks th envs s1
      in (r # rs, s2))"

text \<open>A result that carries a CPU percentage between 0 and 100.\<close>

definition cpu_in_range :: "health_result \<Rightarrow> bool" where
  "cpu_in_range r =
     (case r of Initializing \<Rightarrow> False | Checked _ p _ _ _ \<Rightarrow> 0 \<le> p \<and> p \<le> 100)"

text \<open>
  The percentage as the specification words it, over exact rationals:
  \<open>100 - 100 * (idle_delta / total_delta)\<close>, clamped to \<open>[0, 100]\<close>.
\<close>

definition exact_cpu_pct :: "rat \<Rightarrow> rat \<Rightarrow> rat" where
  "exact_cpu_pct idle_delta total_delta =
     max 0 (min 100 (100 - 100 * (idle_delta / total_delta)))"

text \<open>
  The exact sums of the counters over the cores and the exact per-core averages: the
  readings as rationals, without any rounding.
\<close>

definition idle_sum :: "cpu_times list \<Rightarrow> nat" where
  "idle_sum cs = sum_list (map idle cs)"

definition tick_sum :: "cpu_times list \<Rightarrow> nat" where
  "tick_sum cs = sum_list (map (\<lambda>c. user c + nice c + sys c + idle c + irq c) cs)"

definition idle_avg :: "cpu_times list \<Rightarrow> rat" where
  "idle_avg cs = of_nat (idle_sum cs) / of_nat (length cs)"

definition tick_avg :: "cpu_times list \<Rightarrow> rat" where
  "tick_avg cs = of_nat (tick_sum cs) / of_nat (length cs)"

text \<open>
  Two readings of three cores: the idle sum goes from 0 to 1 and the tick sum from 7 to
  17, so the exact idle share of the interval is one tenth.
\<close>

definition three_before :: "cpu_times list" where
  "three_before =
     [\<lparr>user = 3, nice = 0, sys = 0, idle = 0, irq = 0\<rparr>,
      \<lparr>user = 2, nice = 0, sys = 0, idle = 0, irq = 0\<rparr>,
      \<lparr>user = 2, nice = 0, sys = 0, idle = 0, irq = 0\<rparr>]"

definition three_after :: "cpu_times list" where
  "three_after =
     [\<lparr>user = 6, nice = 0, sys = 0, idle = 1, irq = 0\<rparr>,
      \<lparr>user = 5, nice = 0, sys = 0, idle = 0, irq = 0\<rparr>,
      \<lparr>user = 5, nice = 0, sys = 0, idle = 0, irq = 0\<rparr>]"

text \<open>Two readings of a single core, 3 ticks apart, 1 of them idle.\<close>

definition cores_before :: "cpu_times list" where
  "cores_before = [\<lparr>user = 10, nice = 0, sys = 5, idle = 85, irq = 0\<rparr>]"

definition cores_after :: "cpu_times list" where
  "cores_after = [\<lparr>user = 12, nice = 0, sys = 5, idle = 86, irq = 0\<rparr>]"

text \<open>Memory readings at 50, 90 and 96 percent of 1000 MB.\<close>

definition ram_at :: "int \<Rightarrow> ram_info" where
  "ram_at pct =
     \<lparr>totalMemMB = 1000, usedMemMB = 10 * pct, usagePercent = pct, freeMem = 1000 - 10 * pct\<rparr>"



text \<open>What a call appended to the log: the events of one cycle, in order.\<close>

definition new_events :: "state \<Rightarrow> state \<Rightarrow> event list" where
  "new_events s s' = drop (length (log s)) (log s')"

fun sent :: "event list \<Rightarrow> message list" where
  "sent [] = []"
| "sent (Send m # es) = m # sent es"
| "sent (e # es) = sent es"

fun is_system_alert :: "message \<Rightarrow> bool" where
  "is_system_alert (System_alert S p r d ws) = True"
| "is_system_alert m = False"

fun is_system_recovery :: "message \<Rightarrow> bool" where
  "is_system_recovery (System_recovery p r d) = True"
| "is_system_recovery m = False"

fun is_failure_alert :: "message \<Rightarrow> bool" where
  "is_failure_alert (Http_failed n e t) = True"
| "is_failure_alert (Tcp_failed n e t) = True"
| "is_failure_alert m = False"

fun is_recovery_alert :: "message \<Rightarrow> bool" where
  "is_recovery_alert (Http_recovery n t) = True"
| "is_recovery_alert (Tcp_recovery n t) = True"
| "is_recovery_alert m = False"

text \<open>The last persisted system severity, as \<open>getLastSystemStatus\<close> reads it.\<close>

definition last_severity :: "state \<Rightarrow> severity option" where
  "last_severity s = map_option metric_status (fst (getLastSystemStatus s))"

text \<open>
  The bucket of one resource as the specification words it: Critical at or above the
  critical threshold, Warning at or above the warning threshold, Healthy otherwise.
\<close>

definition bucket :: "int \<Rightarrow> int \<Rightarrow> int \<Rightarrow> severity" where
  "bucket warning critical pct =
     (if critical \<le> pct then Critical else if warning \<le> pct then Warning else Healthy)"

definition cpu_severity :: "thresholds \<Rightarrow> int \<Rightarrow> severity" where
  "cpu_severity th cpuUsage =
     bucket (CPU_WARNING_THRESHOLD th) (CPU_CRITICAL_THRESHOLD th) cpuUsage"

definition ram_severity :: "thresholds \<Rightarrow> ram_info \<Rightarrow> severity" where
  "ram_severity th ramInfo =
     bucket (RAM_WARNING_THRESHOLD th) (RAM_CRITICAL_THRESHOLD th) (usagePercent ramInfo)"

text \<open>Absent disk metrics, and a percentage that is not a number, add nothing.\<close>

definition disk_severity :: "thresholds \<Rightarrow> disk_info option \<Rightarrow> severity" where
  "disk_severity th diskInfo =
     (case diskInfo of
        None \<Rightarrow> Healthy
      | Some d \<Rightarrow>
          (case diskUsagePercent d of
             None \<Rightarrow> Healthy
           | Some pct \<Rightarrow> bucket (DISK_WARNING_THRESHOLD th) (DISK_CRITICAL_THRESHOLD th) pct))"

datatype resource = RAM | CPU | Disk

text \<open>The resource a warning text speaks of, read off its first word.\<close>

definition warning_resource :: "string \<Rightarrow> resource option" where
  "warning_resource w =
     (if starts_with w ''RAM'' then Some RAM
      else if starts_with w ''CPU'' then Some CPU
      else if starts_with w ''Disk'' then Some Disk
      else None)"

text \<open>A resource whose percentage is at or above the given one of its two thresholds.\<close>

fun reaches_warning :: "thresholds \<Rightarrow> int \<Rightarrow> ram_info \<Rightarrow> disk_info option \<Rightarrow> resource \<Rightarrow> bool" where
  "reaches_warning th p r d RAM = (RAM_WARNING_THRESHOLD th \<le> usagePercent r)"
| "reaches_warning th p r d CPU = (CPU_WARNING_THRESHOLD th \<le> p)"
| "reaches_warning th p r None Disk = False"
| "reaches_warning th p r (Some i) Disk = num_ge (diskUsagePercent i) (DISK_WARNING_THRESHOLD th)"

fun reaches_critical :: "thresholds \<Rightarrow> int \<Rightarrow> ram_info \<Rightarrow> disk_info option \<Rightarrow> resource \<Rightarrow> bool" where
  "reaches_critical th p r d RAM = (RAM_CRITICAL_THRESHOLD th \<le> usagePercent r)"
| "reaches_critical th p r d CPU = (CPU_CRITICAL_THRESHOLD th \<le> p)"
| "reaches_critical th p r None Disk = False"
| "reaches_critical th p r (Some i) Disk = num_ge (diskUsagePercent i) (DISK_CRITICAL_THRESHOLD th)"

text \<open>
  The two orders of a cycle's events: no store write before a dispatch to the notifier,
  and no dispatch before a store write.
\<close>

fun is_write :: "event \<Rightarrow> bool" where
  "is_write (Insert_test r) = True"
| "is_write (Insert_metric r) = True"
| "is_write e = False"

fun is_dispatch :: "event \<Rightarrow> bool" where
  "is_dispatch (Send m) = True"
| "is_dispatch e = False"

fun dispatch_then_write :: "event list \<Rightarrow> bool" where
  "dispatch_then_write [] = True"
| "dispatch_then_write (e # es) =
     ((if is_write e then \<not> list_ex is_dispatch es else True) \<and> dispatch_then_write es)"

fun write_then_dispatch :: "event list \<Rightarrow> bool" where
  "write_then_dispatch [] = True"
| "write_then_dispatch (e # es) =
     ((if is_dispatch e then \<not> list_ex is_write es else True) \<and> write_then_dispatch es)"

text \<open>
  The row \<open>checkSystemHealth\<close> binds to \<open>insertSystemMetric\<close> (lines 211 to 221), and
  the messages it sends before (lines 168 to 208), from the values they depend on.
\<close>

definition sample_row ::
  "int \<Rightarrow> ram_info \<Rightarrow> disk_info option \<Rightarrow> severity \<Rightarrow> string list \<Rightarrow> metric_row" where
  "sample_row p r d S ws =
     \<lparr>cpu_usage = p, ram_used_mb = usedMemMB r, ram_total_mb = totalMemMB r,
      ram_usage_percent = usagePercent r,
      disk_used_gb = (case d of None \<Rightarrow> None | Some i \<Rightarrow> usedGB i),
      disk_total_gb = (case d of None \<Rightarrow> None | Some i \<Rightarrow> totalGB i),
      disk_usage_percent = (case d of None \<Rightarrow> None | Some i \<Rightarrow> diskUsagePercent i),
      metric_status = S,
      warning_message = (if ws \<noteq> [] then Some (join ''; '' ws) else None)\<rparr>"

definition sample_messages ::
  "severity option \<Rightarrow> int \<Rightarrow> ram_info \<Rightarrow> disk_info option \<Rightarrow> severity \<Rightarrow> string list
     \<Rightarrow> message list" where
  "sample_messages P p r d S ws =
     (if P \<noteq> Some S \<and> S \<noteq> Healthy then [System_alert S p r d ws] else [])
     @ (if S = Healthy \<and> P \<noteq> None \<and> P \<noteq> Some Healthy then [System_recovery p r d] else [])"

text \<open>The system alerts and the system recovery messages sent between two states.\<close>

definition alerts_sent :: "state \<Rightarrow> state \<Rightarrow> message list" where
  "alerts_sent s s' = filter is_system_alert (sent (new_events s s'))"

definition recoveries_sent :: "state \<Rightarrow> state \<Rightarrow> message list" where
  "recoveries_sent s s' = filter is_system_recovery (sent (new_events s s'))"

text \<open>
  A third reading of the single core, again 3 ticks later with 1 of them idle, and the
  host as three successive checks see it: at start, then twice with memory at 90 percent
  and the disk query failing.
\<close>

definition cores_later :: "cpu_times list" where
  "cores_later = [\<lparr>user = 14, nice = 0, sys = 5, idle = 87, irq = 0\<rparr>]"

definition env_start :: sys_env where
  "env_start = \<lparr>cpus = cores_before, ram = ram_at 50, df = None\<rparr>"

definition env_high :: sys_env where
  "env_high = \<lparr>cpus = cores_after, ram = ram_at 90, df = None\<rparr>"

definition env_still_high :: sys_env where
  "env_still_high = \<lparr>cpus = cores_later, ram = ram_at 90, df = None\<rparr>"

definition seeded :: state where
  "seeded = snd (checkSystemHealth default_thresholds env_start initial_state)"

text \<open>The state after the first check with memory at 90 percent.\<close>

definition warned :: state where
  "warned = snd (checkSystemHealth default_thresholds env_high seeded)"

text \<open>
  A busy reading after \<open>cores_after\<close>: 100 ticks later with 15 of them idle, seen with
  memory at 90 percent.
\<close>

definition cores_busy :: "cpu_times list" where
  "cores_busy = [\<lparr>user = 97, nice = 0, sys = 5, idle = 101, irq = 0\<rparr>]"

definition env_busy :: sys_env where
  "env_busy = \<lparr>cpus = cores_busy, ram = ram_at 90, df = None\<rparr>"

text \<open>
  Disk metrics with nothing to persist: no object at all, or an object whose total, used
  and percentage fields are \<open>NaN\<close>. The last host sees \<open>df\<close> print five words and no
  number.
\<close>

definition no_disk_numbers :: "disk_info option \<Rightarrow> bool" where
  "no_disk_numbers d =
     (case d of
        None \<Rightarrow> True
      | Some i \<Rightarrow> totalGB i = None \<and> usedGB i = None \<and> diskUsagePercent i = None)"

definition env_garbled :: sys_env where
  "env_garbled = \<lparr>cpus = cores_after, ram = ram_at 90, df = Some ''a b c d e''\<rparr>"

text \<open>
  The last stored result for a target and a test type exists and is Failed, as
  \<open>getLastTestResult\<close> reads it.
\<close>

definition last_failed :: "state \<Rightarrow> string \<Rightarrow> string \<Rightarrow> bool" where
  "last_failed s tgt ty =
     (case fst (getLastTestResult tgt ty s) of None \<Rightarrow> False | Some r \<Rightarrow> status r = Failed)"

text \<open>
  An HTTP target and a TCP target, and the store after one probe of the first that was
  answered with status 500.
\<close>

definition api :: test_config where
  "api = \<lparr>name = ''API'', target = ''https://api.example.com/health''\<rparr>"

definition db :: test_config where
  "db = \<lparr>name = ''DB'', target = ''db.internal:5432''\<rparr>"

definition failed_once :: state where
  "failed_once = snd (runHttpTest api (Response 500) 10 initial_state)"

text \<open>
  The words of the claim about derived names: the part of a string after the last
  occurrence of a character and the part before its first occurrence, each the whole
  string when the character does not occur.
\<close>

definition after_last :: "char \<Rightarrow> string \<Rightarrow> string" where
  "after_last c s = rev (takeWhile (\<lambda>x. x \<noteq> c) (rev s))"

definition before_first :: "char \<Rightarrow> string \<Rightarrow> string" where
  "before_first c s = takeWhile (\<lambda>x. x \<noteq> c) s"

definition derived_name :: "string \<Rightarrow> string" where
  "derived_name t =
     (if after_last CHR ''/'' t \<noteq> [] then after_last CHR ''/'' t
      else if before_first CHR '':'' t \<noteq> [] then before_first CHR '':'' t
      else t)"

text \<open>The entries of a configuration string: its comma-separated pieces, trimmed, the empty ones dropped.\<close>

definition entries :: "string \<Rightarrow> string list" where
  "entries s = filter (\<lambda>e. e \<noteq> []) (map trim (split_on CHR '','' s))"

section \<open>Facts about rounding to a double\<close>

lemma round_even_of_int: "round_even (of_int k) = k"
  by (simp add: round_even_def)

lemma round_even_ge: "of_int k \<le> x \<Longrightarrow> k \<le> round_even x"
proof -
  assume "of_int k \<le> x"
  then have "k \<le> \<lfloor>x\<rfloor>" by (simp add: le_floor_iff)
  then show ?thesis by (simp add: round_even_def Let_def)
qed

lemma round_even_le: "x \<le> of_int k \<Longrightarrow> round_even x \<le> k"
proof -
  assume a: "x \<le> of_int k"
  show ?thesis
  proof (cases "x = of_int k")
    case True
    then show ?thesis by (simp add: round_even_of_int)
  next
    case False
    with a have "x < of_int k" by simp
    then have "\<lfloor>x\<rfloor> < k" by (simp add: floor_less_iff)
    then show ?thesis by (auto simp: round_even_def Let_def)
  qed
qed

lemma ilog2_bounds:
  assumes "0 < x"
  shows "2 powi (ilog2 x) \<le> x \<and> x < 2 powi (ilog2 x + 1)"
proof (cases "1 \<le> x")
  case True
  define n where "n = \<lfloor>x\<rfloor>"
  have n: "0 < n" using True by (simp add: n_def)
  define c where "c = bitlen n"
  from bitlen_bounds [OF n] have b: "2 ^ nat (c - 1) \<le> n" "n < 2 ^ nat c"
    by (simp_all add: c_def)
  have c1: "1 \<le> c" using n by (simp add: c_def bitlen_alt_def)
  have e: "ilog2 x = c - 1" using True by (simp add: ilog2_def n_def c_def)
  have "(2::rat) powi (c - 1) = of_int (2 ^ nat (c - 1))"
    using c1 by (simp add: power_int_nonneg_exp)
  also have "\<dots> \<le> of_int n" using b(1) by (simp only: of_int_le_iff)
  also have "\<dots> \<le> x" by (simp add: n_def)
  finally have lo: "2 powi (c - 1) \<le> x" .
  have "x < of_int (n + 1)" unfolding n_def by simp linarith
  also have "of_int (n + 1) \<le> (of_int (2 ^ nat c) :: rat)"
    using b(2) by (simp only: of_int_le_iff)
  also have "\<dots> = 2 powi c" using c1 by (simp add: power_int_nonneg_exp)
  finally have "x < 2 powi c" .
  with lo show ?thesis by (simp add: e)
next
  case False
  define y where "y = 1 / x"
  have y1: "1 < y" using False assms by (simp add: y_def)
  define n where "n = \<lceil>y\<rceil> - 1"
  have n: "0 < n" using y1 by (simp add: n_def less_ceiling_iff)
  have ny: "of_int n < y" by (simp add: n_def) linarith
  have yn: "y \<le> of_int (n + 1)" by (simp add: n_def)
  define c where "c = bitlen n"
  from bitlen_bounds [OF n] have b: "2 ^ nat (c - 1) \<le> n" "n < 2 ^ nat c"
    by (simp_all add: c_def)
  have c1: "1 \<le> c" using n by (simp add: c_def bitlen_alt_def)
  have e: "ilog2 x = - c" using False by (simp add: ilog2_def n_def c_def y_def)
  have x: "x = 1 / y" using assms by (simp add: y_def)
  have "y \<le> of_int (n + 1)" by (rule yn)
  also have "of_int (n + 1) \<le> (of_int (2 ^ nat c) :: rat)"
    using b(2) by (simp only: of_int_le_iff)
  also have "\<dots> = 2 powi c" using c1 by (simp add: power_int_nonneg_exp)
  finally have "y \<le> 2 powi c" .
  then have "1 / (2 powi c) \<le> 1 / y"
    using y1 by (intro divide_left_mono) simp_all
  then have lo: "2 powi (- c) \<le> x"
    by (simp add: x power_int_minus_divide)
  have "(2::rat) powi (c - 1) = of_int (2 ^ nat (c - 1))"
    using c1 by (simp add: power_int_nonneg_exp)
  also have "\<dots> \<le> of_int n" using b(1) by (simp only: of_int_le_iff)
  also have "\<dots> < y" by (rule ny)
  finally have "2 powi (c - 1) < y" .
  moreover have "0 < y * 2 powi (c - 1)" using y1 by simp
  ultimately have "1 / y < 1 / (2 powi (c - 1))"
    by (intro divide_strict_left_mono) simp_all
  also have "1 / ((2::rat) powi (c - 1)) = 2 powi (- (c - 1))"
    by (rule power_int_minus_divide [symmetric])
  finally have "x < 2 powi (- c + 1)" by (simp add: x algebra_simps)
  with lo show ?thesis by (simp add: e)
qed

lemma powi_less_cancel: "(2::rat) powi m < 2 powi n \<Longrightarrow> m < n"
proof (rule ccontr)
  assume a: "(2::rat) powi m < 2 powi n" and "\<not> m < n"
  then have "n \<le> m" by simp
  then have "(2::rat) powi n \<le> 2 powi m" by (intro power_int_increasing) simp_all
  with a show False by simp
qed

lemma powi_neg_nat: "(2::rat) powi (- int n) = 1 / 2 ^ n"
  by (simp add: power_int_minus_divide)

lemma ilog2_unique:
  assumes "2 powi e \<le> x" "x < 2 powi (e + 1)"
  shows "ilog2 x = e"
proof -
  have "0 < (2::rat) powi e" by simp
  then have x: "0 < x" using assms(1) by (rule less_le_trans)
  from ilog2_bounds [OF x] have b: "2 powi (ilog2 x) \<le> x" "x < 2 powi (ilog2 x + 1)"
    by simp_all
  have "(2::rat) powi e < 2 powi (ilog2 x + 1)" using assms(1) b(2) by simp
  then have 1: "e < ilog2 x + 1" by (rule powi_less_cancel)
  have "(2::rat) powi (ilog2 x) < 2 powi (e + 1)" using assms(2) b(1) by simp
  then have 2: "ilog2 x < e + 1" by (rule powi_less_cancel)
  from 1 2 show ?thesis by simp
qed

lemma round_even_near:
  assumes "\<bar>x - of_int n\<bar> < 1 / 2"
  shows "round_even x = n"
proof -
  have lo: "of_int n - 1 / 2 < x" and hi: "x < of_int n + 1 / 2"
    using assms by linarith+
  show ?thesis
  proof (cases "of_int n \<le> x")
    case True
    then have "\<lfloor>x\<rfloor> = n" using hi by (intro floor_unique) simp_all
    then show ?thesis using hi by (simp add: round_even_def Let_def)
  next
    case False
    then have "\<lfloor>x\<rfloor> = n - 1" using lo by (intro floor_unique) simp_all
    then show ?thesis using lo by (simp add: round_even_def Let_def)
  qed
qed

text \<open>A rounding checked from its exponent and its rounded significand.\<close>

lemma fl_eval:
  assumes "2 powi e \<le> x" "x < 2 powi (e + 1)" "- 1022 \<le> e"
    and "\<bar>x / 2 powi (e - 52) - of_int n\<bar> < 1 / 2"
    and "\<bar>of_int n * 2 powi (e - 52)\<bar> < (2::rat) ^ 1024"
  shows "fl x = Fin (of_int n * 2 powi (e - 52))"
proof -
  have "0 < (2::rat) powi e" by simp
  then have x: "0 < x" using assms(1) by (rule less_le_trans)
  have e: "ilog2 x = e" by (rule ilog2_unique [OF assms(1,2)])
  have m: "max e (- 1022) = e" using assms(3) by simp
  have r: "round_even (x / 2 powi (e - 52)) = n" by (rule round_even_near [OF assms(4)])
  show ?thesis
    using x assms(5) by (simp add: fl_def Let_def e m r)
qed

text \<open>An integer below \<open>2^53\<close> over a power of two is a double.\<close>

lemma fl_dyadic:
  assumes I: "0 \<le> I" "I < 2 ^ 53" and k: "k \<le> 1000"
  shows "fl (of_int I / 2 ^ k) = Fin (of_int I / 2 ^ k)"
proof (cases "I = 0")
  case True
  then show ?thesis by (simp add: fl_def)
next
  case False
  with I have I0: "0 < I" by simp
  define q :: rat where "q = of_int I / 2 ^ k"
  have q0: "0 < q" using I0 by (simp add: q_def)
  define e where "e = ilog2 q"
  from ilog2_bounds [OF q0] have b: "2 powi e \<le> q" "q < 2 powi (e + 1)"
    by (simp_all add: e_def)
  have "(1::rat) \<le> of_int I" using I0 by simp
  then have "(2::rat) powi (- int k) \<le> q"
    by (simp add: q_def powi_neg_nat divide_le_cancel)
  with b(2) have "(2::rat) powi (- int k) < 2 powi (e + 1)" by simp
  then have lo: "- int k \<le> e" using powi_less_cancel by fastforce
  have "of_int I < (2::rat) ^ 53" using I(2) by (simp only: of_int_less_numeral_power_cancel_iff)
  then have "q < 2 ^ 53 / 2 ^ k" by (simp add: q_def divide_strict_right_mono)
  also have "(2::rat) ^ 53 / 2 ^ k = 2 powi (53 - int k)"
    by (simp add: power_int_diff)
  finally have qk: "q < 2 powi (53 - int k)" .
  with b(1) have "(2::rat) powi e < 2 powi (53 - int k)" by simp
  then have hi: "e \<le> 52 - int k" using powi_less_cancel by fastforce
  have m: "max e (- 1022) = e" using lo k by simp
  define j where "j = nat (52 - int k - e)"
  have j: "int j = 52 - int k - e" using hi by (simp add: j_def)
  have u: "q / 2 powi (e - 52) = of_int (I * 2 ^ j)"
  proof -
    have "(2::rat) powi (e - 52) = 2 powi (- int (k + j))" using j by simp
    also have "\<dots> = 1 / 2 ^ (k + j)" by (rule powi_neg_nat)
    finally have "(2::rat) powi (e - 52) = 1 / (2 ^ k * 2 ^ j)" by (simp add: power_add)
    then show ?thesis by (simp add: q_def)
  qed
  have r: "of_int (round_even (q / 2 powi (e - 52))) * 2 powi (e - 52) = q"
  proof -
    have "of_int (round_even (q / 2 powi (e - 52))) = q / 2 powi (e - 52)"
      unfolding u by (simp only: round_even_of_int)
    then show ?thesis by simp
  qed
  have "q < 2 ^ 53 / 2 ^ k" using qk by (simp add: power_int_diff)
  also have "\<dots> \<le> (2::rat) ^ 53 / 1" by (intro divide_left_mono) simp_all
  also have "\<dots> < 2 ^ 1024" by simp
  finally have small: "\<bar>q\<bar> < 2 ^ 1024" using q0 by simp
  have "fl q = Fin q"
    using q0 small by (simp add: fl_def Let_def e_def [symmetric] m r)
  then show ?thesis by (simp add: q_def)
qed

text \<open>
  Rounding does not cross an integer that the exact value stays \<open>2^-46\<close> away from
  (below 128 the doubles are at most that far apart).
\<close>

lemma fl_floor:
  assumes q: "0 < q" "q < 128"
    and m: "of_int m \<le> q" "q \<le> of_int m + 1 - 1 / 2 ^ 46"
  shows "\<exists>r. fl q = Fin r \<and> of_int m \<le> r \<and> r < of_int m + 1"
proof -
  define e0 where "e0 = ilog2 q"
  from ilog2_bounds [OF q(1)] have b: "2 powi e0 \<le> q" by (simp add: e0_def)
  have "(2::rat) powi e0 < 2 powi 7" using b q(2) by simp
  then have e0: "e0 \<le> 6" using powi_less_cancel by fastforce
  define e where "e = max e0 (- 1022)"
  have e: "e \<le> 6" using e0 by (simp add: e_def)
  define j where "j = nat (6 - e)"
  have j: "int j = 6 - e" using e by (simp add: j_def)
  define u :: rat where "u = 2 powi (e - 52)"
  have "(2::rat) powi (e - 52) = 2 powi (- int (46 + j))" using j by simp
  also have "\<dots> = 1 / 2 ^ (46 + j)" by (rule powi_neg_nat)
  finally have u: "u = 1 / (2 ^ 46 * 2 ^ j)" by (simp add: u_def power_add)
  have u0: "0 < u" by (simp add: u)
  have lo: "m * (2 ^ 46 * 2 ^ j) \<le> round_even (q / u)"
  proof (rule round_even_ge)
    have "of_int m * (2 ^ 46 * 2 ^ j) \<le> q * (2 ^ 46 * 2 ^ j)"
      using m(1) by (intro mult_right_mono) simp_all
    then show "of_int (m * (2 ^ 46 * 2 ^ j)) \<le> q / u" by (simp add: u)
  qed
  have hi: "round_even (q / u) \<le> (m + 1) * (2 ^ 46 * 2 ^ j) - 2 ^ j"
  proof (rule round_even_le)
    have "q * (2 ^ 46 * 2 ^ j) \<le> (of_int m + 1 - 1 / 2 ^ 46) * (2 ^ 46 * 2 ^ j)"
      using m(2) by (intro mult_right_mono) simp_all
    also have "\<dots> = of_int ((m + 1) * (2 ^ 46 * 2 ^ j) - 2 ^ j)"
      by (simp add: algebra_simps)
    finally show "q / u \<le> of_int ((m + 1) * (2 ^ 46 * 2 ^ j) - 2 ^ j)" by (simp add: u)
  qed
  define r where "r = of_int (round_even (q / u)) * u"
  have r1: "of_int m \<le> r"
  proof -
    have "of_int (m * (2 ^ 46 * 2 ^ j)) * u \<le> r"
      unfolding r_def using lo u0 by (intro mult_right_mono) (simp_all only: of_int_le_iff less_imp_le)
    then show ?thesis by (simp add: u)
  qed
  have r2: "r < of_int m + 1"
  proof -
    have "r \<le> of_int ((m + 1) * (2 ^ 46 * 2 ^ j) - 2 ^ j) * u"
      unfolding r_def using hi u0 by (intro mult_right_mono) (simp_all only: of_int_le_iff less_imp_le)
    also have "\<dots> = of_int m + 1 - 1 / 2 ^ 46"
      by (simp add: u field_simps)
    also have "\<dots> < of_int m + 1" by simp
    finally show ?thesis .
  qed
  have m0: "- 1 < m"
  proof -
    have "(0::rat) < of_int m + 1" using q(1) m(2) by simp
    then have "(0::rat) < of_int (m + 1)" by simp
    then show ?thesis by (simp only: of_int_0_less_iff)
  qed
  have "of_int m < (128::rat)" using m(1) q(2) by simp
  then have "\<bar>r\<bar> < 129" using r1 r2 m0 by (simp add: abs_if)
  also have "(129::rat) < 2 ^ 1024" by simp
  finally have small: "\<not> 2 ^ 1024 \<le> \<bar>r\<bar>" by simp
  have "fl q = Fin r"
    using q(1) small
    by (simp add: fl_def Let_def e0_def [symmetric] e_def [symmetric] u_def [symmetric]
        r_def [symmetric])
  with r1 r2 show ?thesis by blast
qed

lemma fl_nat: "n < 2 ^ 53 \<Longrightarrow> fl (of_nat n) = Fin (of_nat n)"
  using fl_dyadic [of "int n" 0] by simp

lemma js_of_nat_exact: "n < 2 ^ 53 \<Longrightarrow> js_of_nat n = Fin (of_nat n)"
  by (simp add: js_of_nat_def fl_nat)

lemma js_add_nat:
  "a + b < 2 ^ 53 \<Longrightarrow> js_add (Fin (of_nat a)) (js_of_nat b) = Fin (of_nat (a + b))"
  using fl_nat [of "a + b"] by (simp add: js_of_nat_exact)

lemma idle_le_tick: "idle_sum cs \<le> tick_sum cs"
  by (induction cs) (simp_all add: idle_sum_def tick_sum_def)

lemma cpu_ticks_fold:
  "i0 + idle_sum cs < 2 ^ 53 \<Longrightarrow> t0 + tick_sum cs < 2 ^ 53 \<Longrightarrow>
   foldl (\<lambda>(totalIdle, totalTick) cpu.
              (js_add totalIdle (js_of_nat (idle cpu)),
               js_add (js_add (js_add (js_add (js_add totalTick (js_of_nat (user cpu)))
                 (js_of_nat (nice cpu))) (js_of_nat (sys cpu))) (js_of_nat (idle cpu)))
                 (js_of_nat (irq cpu))))
     (Fin (of_nat i0), Fin (of_nat t0)) cs =
   (Fin (of_nat (i0 + idle_sum cs)), Fin (of_nat (t0 + tick_sum cs)))"
proof (induction cs arbitrary: i0 t0)
  case Nil
  then show ?case by (simp add: idle_sum_def tick_sum_def)
next
  case (Cons c cs)
  have s: "idle_sum (c # cs) = idle c + idle_sum cs"
    "tick_sum (c # cs) = user c + nice c + sys c + idle c + irq c + tick_sum cs"
    by (simp_all add: idle_sum_def tick_sum_def)
  from Cons.prems have i: "i0 + idle c < 2 ^ 53"
    and t: "t0 + user c < 2 ^ 53" "t0 + user c + nice c < 2 ^ 53"
      "t0 + user c + nice c + sys c < 2 ^ 53"
      "t0 + user c + nice c + sys c + idle c < 2 ^ 53"
      "t0 + user c + nice c + sys c + idle c + irq c < 2 ^ 53"
    unfolding s by linarith+
  have step: "js_add (Fin (of_nat i0)) (js_of_nat (idle c)) = Fin (of_nat (i0 + idle c))"
    "js_add (js_add (js_add (js_add (js_add (Fin (of_nat t0)) (js_of_nat (user c)))
        (js_of_nat (nice c))) (js_of_nat (sys c))) (js_of_nat (idle c))) (js_of_nat (irq c)) =
      Fin (of_nat (t0 + user c + nice c + sys c + idle c + irq c))"
    by (simp_all only: js_add_nat i t)
  have "i0 + idle c + idle_sum cs < 2 ^ 53"
    "t0 + user c + nice c + sys c + idle c + irq c + tick_sum cs < 2 ^ 53"
    using Cons.prems unfolding s by linarith+
  from Cons.IH [OF this] show ?case
    unfolding s by (simp only: foldl_Cons case_prod_conv step add.assoc)
qed

lemma cpu_ticks_exact:
  assumes "tick_sum cs < 2 ^ 53"
  shows "cpu_ticks cs = (Fin (of_nat (idle_sum cs)), Fin (of_nat (tick_sum cs)))"
proof -
  have "idle_sum cs < 2 ^ 53" using idle_le_tick [of cs] assms by linarith
  then show ?thesis
    using cpu_ticks_fold [of 0 cs 0] assms by (simp add: cpu_ticks_def)
qed

lemma cpu_reading_pow2:
  assumes "length cs = 2 ^ k" "k \<le> 52" "tick_sum cs < 2 ^ 53"
  shows "cpu_reading cs =
    (Fin (of_nat (idle_sum cs) / 2 ^ k), Fin (of_nat (tick_sum cs) / 2 ^ k))"
proof -
  have "(2::nat) ^ k \<le> 2 ^ 52" using assms(2) by (intro power_increasing) simp_all
  then have "(2::nat) ^ k < 2 ^ 53" by simp
  then have n: "js_of_nat (length cs) = Fin (2 ^ k)"
    by (simp add: assms(1) js_of_nat_exact)
  have i: "idle_sum cs < 2 ^ 53" using idle_le_tick [of cs] assms(3) by linarith
  have "fl (of_int (int (idle_sum cs)) / 2 ^ k) = Fin (of_int (int (idle_sum cs)) / 2 ^ k)"
    using i assms(2) by (intro fl_dyadic) simp_all
  moreover have "fl (of_int (int (tick_sum cs)) / 2 ^ k) = Fin (of_int (int (tick_sum cs)) / 2 ^ k)"
    using assms(2,3) by (intro fl_dyadic) simp_all
  ultimately show ?thesis
    by (simp add: cpu_reading_def cpu_ticks_exact [OF assms(3)] n)
qed

lemma to_int32_small:
  assumes "0 \<le> q" "q < 101"
  shows "to_int32 (Fin q) = \<lfloor>q\<rfloor>"
proof -
  have "0 \<le> \<lfloor>q\<rfloor>" using assms by simp
  moreover have "\<lfloor>q\<rfloor> < 101" using assms by (simp add: floor_less_iff)
  ultimately show ?thesis using assms by (simp add: trunc_def Let_def)
qed

text \<open>
  The quotient of the sampler when nothing before it was rounded: the floor survives the
  one rounding of the division.
\<close>

lemma to_int32_fl_quotient:
  assumes "0 \<le> a" "a \<le> b" "0 < b" "b \<le> 2 ^ 46"
  shows "to_int32 (fl (of_int (100 * a) / of_int b)) = \<lfloor>of_int (100 * a) / of_int b :: rat\<rfloor>"
proof (cases "a = 0")
  case True
  then show ?thesis by (simp add: fl_def trunc_def)
next
  case False
  define q :: rat where "q = of_int (100 * a) / of_int b"
  define m where "m = \<lfloor>q\<rfloor>"
  have a0: "0 < a" using False assms(1) by simp
  have q0: "0 < q" using a0 assms(3) by (simp add: q_def)
  have "of_int (100 * a) \<le> (of_int (100 * b) :: rat)"
    using assms(2) by (simp only: of_int_le_iff)
  then have q100: "q \<le> 100" using assms(3) by (simp add: q_def divide_le_eq)
  have m1: "of_int m \<le> q" by (simp add: m_def)
  have "q < of_int (m + 1)" unfolding m_def by simp linarith
  then have "of_int (100 * a) < of_int (m + 1) * (of_int b :: rat)"
    using assms(3) by (simp add: q_def divide_less_eq)
  then have "of_int (100 * a) < (of_int ((m + 1) * b) :: rat)" by simp
  then have "100 * a < (m + 1) * b" by (simp only: of_int_less_iff)
  then have "100 * a + 1 \<le> (m + 1) * b" by simp
  then have "(of_int (100 * a + 1) :: rat) \<le> of_int ((m + 1) * b)"
    by (simp only: of_int_le_iff)
  then have "of_int (100 * a) + 1 \<le> (of_int m + 1) * (of_int b :: rat)" by simp
  then have "(of_int (100 * a) + 1) / of_int b \<le> (of_int m + 1 :: rat)"
    using assms(3) by (simp add: divide_le_eq)
  then have g: "q + 1 / of_int b \<le> of_int m + 1"
    by (simp add: q_def add_divide_distrib)
  have "(of_int b :: rat) \<le> of_int (2 ^ 46)" using assms(4) by (simp only: of_int_le_iff)
  then have "(of_int b :: rat) \<le> 2 ^ 46" by simp
  then have "1 / (2 ^ 46 :: rat) \<le> 1 / of_int b"
    using assms(3) by (intro divide_left_mono) simp_all
  with g have m2: "q \<le> of_int m + 1 - 1 / 2 ^ 46" by linarith
  from fl_floor [OF q0 _ m1 m2] q100 obtain r where
    r: "fl q = Fin r" "of_int m \<le> r" "r < of_int m + 1"
    by auto
  have m0: "0 \<le> m" using q0 by (simp add: m_def)
  have mle: "m \<le> 100" using q100 by (simp add: m_def floor_le_iff)
  have r0: "0 \<le> r" using r(2) m0 by (meson of_int_0_le_iff order_trans)
  have "(of_int m :: rat) \<le> 100" using mle by (simp only: of_int_le_numeral_iff)
  then have r101: "r < 101" using r(3) by linarith
  have "\<lfloor>r\<rfloor> = m" using r(2,3) by (intro floor_unique) simp_all
  with to_int32_small [OF r0 r101] have "to_int32 (fl q) = m"
    unfolding r(1) by (rule trans)
  then show ?thesis by (simp only: q_def m_def)
qed

lemma getCpuUsage_pow2:
  assumes len: "length cs0 = 2 ^ k" "length cs = 2 ^ k" "k \<le> 52"
    and T: "tick_sum cs < 2 ^ 46"
    and mono: "idle_sum cs0 \<le> idle_sum cs"
      "idle_sum cs - idle_sum cs0 \<le> tick_sum cs - tick_sum cs0"
      "tick_sum cs0 < tick_sum cs"
  shows "fst (getCpuUsage cs (Some (cpu_reading cs0))) =
    Some (100 - \<lfloor>100 * (idle_avg cs - idle_avg cs0) / (tick_avg cs - tick_avg cs0)\<rfloor>)"
proof -
  define a where "a = int (idle_sum cs) - int (idle_sum cs0)"
  define b where "b = int (tick_sum cs) - int (tick_sum cs0)"
  have ab: "0 \<le> a" "a \<le> b" "0 < b" using mono by (simp_all add: a_def b_def)
  have T53: "tick_sum cs < 2 ^ 53" "tick_sum cs0 < 2 ^ 53" using T mono(3) by simp_all
  have I46: "idle_sum cs < 2 ^ 46" using idle_le_tick [of cs] T by linarith
  have b46: "b \<le> 2 ^ 46" using T by (simp add: b_def)
  have a46: "a < 2 ^ 46" using I46 by (simp add: a_def)
  have r0: "cpu_reading cs0 =
      (Fin (of_nat (idle_sum cs0) / 2 ^ k), Fin (of_nat (tick_sum cs0) / 2 ^ k))"
    by (rule cpu_reading_pow2 [OF len(1,3) T53(2)])
  have r1: "cpu_reading cs =
      (Fin (of_nat (idle_sum cs) / 2 ^ k), Fin (of_nat (tick_sum cs) / 2 ^ k))"
    by (rule cpu_reading_pow2 [OF len(2,3) T53(1)])
  have k: "k \<le> 1000" using len(3) by simp
  have di: "js_sub (Fin (of_nat (idle_sum cs) / 2 ^ k)) (Fin (of_nat (idle_sum cs0) / 2 ^ k)) =
      Fin (of_int a / 2 ^ k)"
  proof -
    have "(of_nat (idle_sum cs) / 2 ^ k - of_nat (idle_sum cs0) / 2 ^ k :: rat) = of_int a / 2 ^ k"
      by (simp add: a_def diff_divide_distrib)
    moreover have "fl (of_int a / 2 ^ k) = Fin (of_int a / 2 ^ k)"
      using ab(1) a46 k by (intro fl_dyadic) simp_all
    ultimately show ?thesis by simp
  qed
  have dt: "js_sub (Fin (of_nat (tick_sum cs) / 2 ^ k)) (Fin (of_nat (tick_sum cs0) / 2 ^ k)) =
      Fin (of_int b / 2 ^ k)"
  proof -
    have "(of_nat (tick_sum cs) / 2 ^ k - of_nat (tick_sum cs0) / 2 ^ k :: rat) = of_int b / 2 ^ k"
      by (simp add: b_def diff_divide_distrib)
    moreover have "fl (of_int b / 2 ^ k) = Fin (of_int b / 2 ^ k)"
      using ab(3) b46 k by (intro fl_dyadic) simp_all
    ultimately show ?thesis by simp
  qed
  have mu: "js_mul (Fin 100) (Fin (of_int a / 2 ^ k)) = Fin (of_int (100 * a) / 2 ^ k)"
  proof -
    have "100 * a < 2 ^ 53" using a46 by simp
    then have "fl (of_int (100 * a) / 2 ^ k) = Fin (of_int (100 * a) / 2 ^ k)"
      using ab(1) k by (intro fl_dyadic) simp_all
    then show ?thesis by simp
  qed
  have dv: "js_div (Fin (of_int (100 * a) / 2 ^ k)) (Fin (of_int b / 2 ^ k)) =
      fl (of_int (100 * a) / of_int b)"
    using ab(3) by simp
  have q: "to_int32 (fl (of_int (100 * a) / of_int b)) = \<lfloor>of_int (100 * a) / of_int b :: rat\<rfloor>"
    by (rule to_int32_fl_quotient [OF ab b46])
  have avg: "100 * (idle_avg cs - idle_avg cs0) / (tick_avg cs - tick_avg cs0) =
      (of_int (100 * a) / of_int b :: rat)"
    using ab(3) by (simp add: idle_avg_def tick_avg_def len a_def b_def diff_divide_distrib [symmetric])
  define m where "m = \<lfloor>of_int (100 * a) / of_int b :: rat\<rfloor>"
  have "0 \<le> (of_int (100 * a) / of_int b :: rat)" using ab by simp
  then have m0: "0 \<le> m" by (simp add: m_def)
  have "of_int (100 * a) \<le> (of_int (100 * b) :: rat)"
    using ab(2) by (simp only: of_int_le_iff)
  then have "(of_int (100 * a) / of_int b :: rat) \<le> 100" using ab(3) by (simp add: divide_le_eq)
  then have m100: "m \<le> 100" by (simp add: m_def floor_le_iff)
  have "fst (getCpuUsage cs (Some (cpu_reading cs0))) =
      Some (max 0 (min 100 (100 - to_int32
        (js_div (js_mul (Fin 100)
           (js_sub (Fin (of_nat (idle_sum cs) / 2 ^ k)) (Fin (of_nat (idle_sum cs0) / 2 ^ k))))
           (js_sub (Fin (of_nat (tick_sum cs) / 2 ^ k)) (Fin (of_nat (tick_sum cs0) / 2 ^ k)))))))"
    unfolding r0 getCpuUsage_def r1 by (simp only: Let_def case_prod_conv option.case fst_conv)
  also have "\<dots> = Some (max 0 (min 100 (100 - m)))"
    by (simp only: di dt mu dv q m_def)
  finally have "fst (getCpuUsage cs (Some (cpu_reading cs0))) = Some (max 0 (min 100 (100 - m)))" .
  also have "max 0 (min 100 (100 - m)) = 100 - m" using m0 m100 by simp
  finally show ?thesis by (simp only: avg m_def)
qed

lemma fl_third: "fl (1 / 3) = Fin (6004799503160661 / 18014398509481984)"
  using fl_eval [of "- 2" "1 / 3" 6004799503160661]
  by (simp add: power_int_minus_divide)

lemma fl_seven_thirds: "fl (7 / 3) = Fin (5254199565265579 / 2251799813685248)"
  using fl_eval [of "1" "7 / 3" 5254199565265579]
  by (simp add: power_int_minus_divide)

lemma fl_seventeen_thirds: "fl (17 / 3) = Fin (6380099472108203 / 1125899906842624)"
  using fl_eval [of "2" "17 / 3" 6380099472108203]
  by (simp add: power_int_minus_divide)

lemma fl_third_again: "fl (6004799503160661 / 18014398509481984) = Fin (6004799503160661 / 18014398509481984)"
  using fl_eval [of "- 2" "6004799503160661 / 18014398509481984" 6004799503160661]
  by (simp add: power_int_minus_divide)

lemma fl_tick_difference: "fl (7505999378950827 / 2251799813685248) = Fin (7505999378950827 / 2251799813685248)"
  using fl_eval [of "1" "7505999378950827 / 2251799813685248" 7505999378950827]
  by (simp add: power_int_minus_divide)

lemma fl_product: "fl (150119987579016525 / 4503599627370496) = Fin (2345624805922133 / 70368744177664)"
  using fl_eval [of "5" "150119987579016525 / 4503599627370496" 4691249611844266]
  by (simp add: power_int_minus_divide)

lemma fl_quotient: "fl (75059993789508256 / 7505999378950827) = Fin (5629499534213119 / 562949953421312)"
  using fl_eval [of "3" "75059993789508256 / 7505999378950827" 5629499534213119]
  by (simp add: power_int_minus_divide)

lemma cpu_reading_three_before:
  "cpu_reading three_before = (Fin 0, Fin (5254199565265579 / 2251799813685248))"
proof -
  have s: "idle_sum three_before = 0" "tick_sum three_before = 7" "length three_before = 3"
    by (simp_all add: idle_sum_def tick_sum_def three_before_def)
  have t: "cpu_ticks three_before = (Fin 0, Fin 7)"
    using cpu_ticks_exact [of three_before] by (simp add: s)
  have n: "js_of_nat 3 = Fin 3" using js_of_nat_exact [of 3] by simp
  show ?thesis
    by (simp add: cpu_reading_def t s n fl_seven_thirds) (simp add: fl_def)
qed

lemma cpu_reading_three_after:
  "cpu_reading three_after =
     (Fin (6004799503160661 / 18014398509481984), Fin (6380099472108203 / 1125899906842624))"
proof -
  have s: "idle_sum three_after = 1" "tick_sum three_after = 17" "length three_after = 3"
    by (simp_all add: idle_sum_def tick_sum_def three_after_def)
  have t: "cpu_ticks three_after = (Fin 1, Fin 17)"
    using cpu_ticks_exact [of three_after] by (simp add: s)
  have n: "js_of_nat 3 = Fin 3" using js_of_nat_exact [of 3] by simp
  show ?thesis
    by (simp add: cpu_reading_def t s n fl_third fl_seventeen_thirds)
qed

lemma getCpuUsage_three:
  "getCpuUsage three_after (Some (cpu_reading three_before)) =
     (Some 91, Some (cpu_reading three_after))"
proof -
  have f: "\<lfloor>5629499534213119 / 562949953421312 :: rat\<rfloor> = 9"
    by (simp add: floor_eq_iff)
  have i: "js_sub (Fin (6004799503160661 / 18014398509481984)) (Fin 0) =
      Fin (6004799503160661 / 18014398509481984)"
    by (simp add: fl_third_again)
  have t: "js_sub (Fin (6380099472108203 / 1125899906842624))
        (Fin (5254199565265579 / 2251799813685248)) =
      Fin (7505999378950827 / 2251799813685248)"
    by (simp add: fl_tick_difference)
  have m: "js_mul (Fin 100) (Fin (6004799503160661 / 18014398509481984)) =
      Fin (2345624805922133 / 70368744177664)"
    by (simp add: fl_product)
  have d: "js_div (Fin (2345624805922133 / 70368744177664))
        (Fin (7505999378950827 / 2251799813685248)) =
      Fin (5629499534213119 / 562949953421312)"
    by (simp add: fl_quotient)
  have "to_int32 (Fin (5629499534213119 / 562949953421312)) = 9"
    by (simp add: trunc_def f)
  then show ?thesis
    unfolding cpu_reading_three_before getCpuUsage_def cpu_reading_three_after
    by (simp only: Let_def case_prod_conv option.case i t m d) simp
qed

section \<open>Facts about the CPU sampler\<close>

lemma getCpuUsage_None: "getCpuUsage cs None = (None, Some (cpu_reading cs))"
  by (simp add: getCpuUsage_def split: prod.splits)

lemma getCpuUsage_Some:
  "\<exists>p. getCpuUsage cs (Some b) = (Some p, Some (cpu_reading cs)) \<and> 0 \<le> p \<and> p \<le> 100"
  by (cases b) (simp add: getCpuUsage_def Let_def split: prod.splits)

lemma to_int32_div_zero: "to_int32 (js_div x (Fin 0)) = 0"
  by (cases x) simp_all

lemma getCpuUsage_zero_delta:
  "js_sub (snd (cpu_reading cs)) (snd b) = Fin 0 \<Longrightarrow> fst (getCpuUsage cs (Some b)) = Some 100"
  by (cases b; cases "cpu_reading cs") (simp add: getCpuUsage_def Let_def to_int32_div_zero)

lemma getCpuUsage_unfold:
  assumes "cpu_reading cs = (i, t)"
  shows "getCpuUsage cs (Some (bi, bt)) =
           (Some (max 0 (min 100
              (100 - to_int32 (js_div (js_mul (Fin 100) (js_sub i bi)) (js_sub t bt))))),
            Some (i, t))"
  using assms by (simp add: getCpuUsage_def Let_def)

lemma getCpuUsage_single:
  assumes "length cs0 = 1" "length cs = 1" "tick_sum cs < 2 ^ 46"
    and "idle_sum cs0 \<le> idle_sum cs"
    and "idle_sum cs - idle_sum cs0 \<le> tick_sum cs - tick_sum cs0"
    and "tick_sum cs0 < tick_sum cs"
  shows "getCpuUsage cs (Some (cpu_reading cs0)) =
    (Some (100 - \<lfloor>100 * (idle_avg cs - idle_avg cs0) / (tick_avg cs - tick_avg cs0)\<rfloor>),
     Some (cpu_reading cs))"
proof -
  have "fst (getCpuUsage cs (Some (cpu_reading cs0))) =
      Some (100 - \<lfloor>100 * (idle_avg cs - idle_avg cs0) / (tick_avg cs - tick_avg cs0)\<rfloor>)"
    using assms by (intro getCpuUsage_pow2 [of cs0 0 cs]) simp_all
  moreover have "snd (getCpuUsage cs (Some (cpu_reading cs0))) = Some (cpu_reading cs)"
    using getCpuUsage_Some [of cs "cpu_reading cs0"] by auto
  ultimately show ?thesis by (simp add: prod_eq_iff)
qed

lemma sums_before:
  "idle_sum cores_before = 85" "tick_sum cores_before = 100" "length cores_before = 1"
  by (simp_all add: idle_sum_def tick_sum_def cores_before_def)

lemma sums_after:
  "idle_sum cores_after = 86" "tick_sum cores_after = 103" "length cores_after = 1"
  by (simp_all add: idle_sum_def tick_sum_def cores_after_def)

lemma sums_later:
  "idle_sum cores_later = 87" "tick_sum cores_later = 106" "length cores_later = 1"
  by (simp_all add: idle_sum_def tick_sum_def cores_later_def)

lemma sums_busy:
  "idle_sum cores_busy = 101" "tick_sum cores_busy = 203" "length cores_busy = 1"
  by (simp_all add: idle_sum_def tick_sum_def cores_busy_def)

lemma cpu_reading_before: "cpu_reading cores_before = (Fin 85, Fin 100)"
  using cpu_reading_pow2 [of cores_before 0] by (simp add: sums_before)

lemma cpu_reading_after: "cpu_reading cores_after = (Fin 86, Fin 103)"
  using cpu_reading_pow2 [of cores_after 0] by (simp add: sums_after)

lemma cpu_reading_later: "cpu_reading cores_later = (Fin 87, Fin 106)"
  using cpu_reading_pow2 [of cores_later 0] by (simp add: sums_later)

lemma cpu_reading_busy: "cpu_reading cores_busy = (Fin 101, Fin 203)"
  using cpu_reading_pow2 [of cores_busy 0] by (simp add: sums_busy)

lemma floor_100_3: "\<lfloor>100 / 3 :: rat\<rfloor> = 33"
  by (simp add: floor_eq_iff)

lemma getCpuUsage_after:
  "getCpuUsage cores_after (Some (Fin 85, Fin 100)) = (Some 67, Some (Fin 86, Fin 103))"
  using getCpuUsage_single [of cores_before cores_after]
  by (simp add: sums_before sums_after idle_avg_def tick_avg_def cpu_reading_before
      cpu_reading_after floor_100_3)

lemma getCpuUsage_later:
  "getCpuUsage cores_later (Some (Fin 86, Fin 103)) = (Some 67, Some (Fin 87, Fin 106))"
  using getCpuUsage_single [of cores_after cores_later]
  by (simp add: sums_after sums_later idle_avg_def tick_avg_def cpu_reading_after
      cpu_reading_later floor_100_3)

lemma getCpuUsage_busy:
  "getCpuUsage cores_busy (Some (Fin 86, Fin 103)) = (Some 85, Some (Fin 101, Fin 203))"
  using getCpuUsage_single [of cores_after cores_busy]
  by (simp add: sums_after sums_busy idle_avg_def tick_avg_def cpu_reading_after
      cpu_reading_busy)

lemma fl_zero: "fl 0 = Fin 0"
  by (simp add: fl_def)

section \<open>Facts about the health check\<close>

lemma check_initializing:
  "previousCpuInfo s = None \<Longrightarrow>
   checkSystemHealth th env s =
     (Initializing, s\<lparr>previousCpuInfo := Some (cpu_reading (cpus env))\<rparr>)"
  by (simp add: checkSystemHealth_def getCpuUsage_None)

lemma check_checked:
  assumes "previousCpuInfo s = Some b"
  shows "\<exists>S p d w s'. checkSystemHealth th env s = (Checked S p (ram env) d w, s')
           \<and> 0 \<le> p \<and> p \<le> 100
           \<and> previousCpuInfo s' = Some (cpu_reading (cpus env))"
proof -
  obtain p where p: "getCpuUsage (cpus env) (Some b) = (Some p, Some (cpu_reading (cpus env)))"
    and "0 \<le> p" "p \<le> 100"
    using getCpuUsage_Some by blast
  then show ?thesis
    using assms
    by (simp add: checkSystemHealth_def Let_def getLastSystemStatus_def insertSystemMetric_def
        sendToAllUsers_def split: prod.splits)
qed

lemma run_checks_in_range:
  "previousCpuInfo s \<noteq> None \<Longrightarrow> list_all cpu_in_range (fst (run_checks th envs s))"
proof (induction envs arbitrary: s)
  case Nil
  then show ?case by simp
next
  case (Cons env envs)
  from Cons.prems obtain b where b: "previousCpuInfo s = Some b" by auto
  from check_checked [OF b, of th env] obtain S p d w s'
    where c: "checkSystemHealth th env s = (Checked S p (ram env) d w, s')"
      and r: "0 \<le> p" "p \<le> 100"
      and b': "previousCpuInfo s' = Some (cpu_reading (cpus env))"
    by blast
  have "list_all cpu_in_range (fst (run_checks th envs s'))"
    using Cons.IH [of s'] b' by simp
  moreover have "cpu_in_range (Checked S p (ram env) d w)"
    using r by (simp add: cpu_in_range_def)
  ultimately show ?case
    using c by (auto split: prod.splits)
qed

lemma assess_status:
  "fst (assess th p r d) = max (cpu_severity th p) (max (ram_severity th r) (disk_severity th d))"
  by (auto simp: assess_def Let_def cpu_severity_def ram_severity_def disk_severity_def
      bucket_def num_ge_def max_def less_eq_severity_def split: option.splits)

lemma assess_warnings:
  "map warning_resource (snd (assess th p r d)) =
     map Some (filter (\<lambda>x. reaches_warning th p r d x \<or> reaches_critical th p r d x)
                 [RAM, CPU, Disk])"
  by (cases d) (auto simp: assess_def Let_def warning_resource_def)

lemma new_events_append: "log s' = log s @ es \<Longrightarrow> new_events s s' = es"
  by (simp add: new_events_def)

lemma sent_map_Send: "sent (map Send ms) = ms"
  by (induction ms) simp_all

lemma sent_append: "sent (xs @ ys) = sent xs @ sent ys"
  by (induction xs rule: sent.induct) simp_all

lemma checkSystemHealth_sample:
  assumes "previousCpuInfo s = Some b"
    and "getCpuUsage (cpus env) (Some b) = (Some p, bl)"
    and "assess th p (ram env) (getDiskUsage (df env)) = (S, ws)"
  shows "checkSystemHealth th env s =
    (Checked S p (ram env) (getDiskUsage (df env)) (if ws \<noteq> [] then Some ws else None),
     s\<lparr>previousCpuInfo := bl,
       system_metrics :=
         system_metrics s @ [sample_row p (ram env) (getDiskUsage (df env)) S ws],
       log := log s @ [Query_metric]
         @ map Send (sample_messages (last_severity s) p (ram env) (getDiskUsage (df env)) S ws)
         @ [Insert_metric (sample_row p (ram env) (getDiskUsage (df env)) S ws)]\<rparr>)"
  using assms
  by (auto simp: checkSystemHealth_def Let_def getLastSystemStatus_def insertSystemMetric_def
      sendToAllUsers_def last_severity_def sample_row_def sample_messages_def
      split: list.splits)

lemma checked_sample:
  assumes "checkSystemHealth th env s = (Checked S p r d w, s')"
  obtains b ws where "previousCpuInfo s = Some b"
    and "fst (getCpuUsage (cpus env) (Some b)) = Some p"
    and "assess th p (ram env) (getDiskUsage (df env)) = (S, ws)"
    and "r = ram env" and "d = getDiskUsage (df env)"
    and "w = (if ws \<noteq> [] then Some ws else None)"
    and "system_metrics s' = system_metrics s @ [sample_row p r d S ws]"
    and "log s' = log s @ [Query_metric]
           @ map Send (sample_messages (last_severity s) p r d S ws)
           @ [Insert_metric (sample_row p r d S ws)]"
proof (cases "previousCpuInfo s")
  case None
  with assms show ?thesis by (simp add: check_initializing)
next
  case (Some b)
  obtain q where q: "getCpuUsage (cpus env) (Some b) = (Some q, Some (cpu_reading (cpus env)))"
    using getCpuUsage_Some by blast
  obtain S0 ws where a: "assess th q (ram env) (getDiskUsage (df env)) = (S0, ws)"
    by (cases "assess th q (ram env) (getDiskUsage (df env))")
  from checkSystemHealth_sample [OF Some q a] assms
  have e: "S0 = S" "q = p" "r = ram env" "d = getDiskUsage (df env)"
    "w = (if ws \<noteq> [] then Some ws else None)"
    and s': "s' = s\<lparr>previousCpuInfo := Some (cpu_reading (cpus env)),
       system_metrics :=
         system_metrics s @ [sample_row q (ram env) (getDiskUsage (df env)) S0 ws],
       log := log s @ [Query_metric]
         @ map Send (sample_messages (last_severity s) q (ram env) (getDiskUsage (df env)) S0 ws)
         @ [Insert_metric (sample_row q (ram env) (getDiskUsage (df env)) S0 ws)]\<rparr>"
    by simp_all
  show ?thesis
  proof (rule that [of b ws])
    show "previousCpuInfo s = Some b" by (rule Some)
    show "fst (getCpuUsage (cpus env) (Some b)) = Some p" using q e by simp
    show "assess th p (ram env) (getDiskUsage (df env)) = (S, ws)" using a e by simp
    show "r = ram env" "d = getDiskUsage (df env)" "w = (if ws \<noteq> [] then Some ws else None)"
      using e by simp_all
    show "system_metrics s' = system_metrics s @ [sample_row p r d S ws]"
      using s' e by simp
    show "log s' = log s @ [Query_metric]
           @ map Send (sample_messages (last_severity s) p r d S ws)
           @ [Insert_metric (sample_row p r d S ws)]"
      using s' e by simp
  qed
qed

lemma seeded_eq: "seeded = initial_state\<lparr>previousCpuInfo := Some (Fin 85, Fin 100)\<rparr>"
  by (simp add: seeded_def env_start_def check_initializing initial_state_def cpu_reading_before)

lemma assess_high:
  "assess default_thresholds 67 (ram_at 90) None =
     (Warning, [''RAM usage high: 90% used (900MB / 1000MB)''])"
  by code_simp

lemma last_severity_append:
  assumes "system_metrics s' = xs @ [row]"
  shows "last_severity s' = Some (metric_status row)"
proof -
  have "\<And>ys :: metric_row list.
      (case ys of [] \<Rightarrow> None | r # rs \<Rightarrow> Some (last (r # rs))) =
      (if ys = [] then None else Some (last ys))"
    by (simp split: list.splits)
  then show ?thesis
    using assms by (simp add: last_severity_def getLastSystemStatus_def)
qed

lemma check_high:
  "checkSystemHealth default_thresholds env_high seeded =
     (Checked Warning 67 (ram_at 90) None (Some [''RAM usage high: 90% used (900MB / 1000MB)'']),
      seeded\<lparr>previousCpuInfo := Some (Fin 86, Fin 103),
        system_metrics := [sample_row 67 (ram_at 90) None Warning
                             [''RAM usage high: 90% used (900MB / 1000MB)'']],
        log := [Query_metric,
                Send (System_alert Warning 67 (ram_at 90) None
                        [''RAM usage high: 90% used (900MB / 1000MB)'']),
                Insert_metric (sample_row 67 (ram_at 90) None Warning
                             [''RAM usage high: 90% used (900MB / 1000MB)''])]\<rparr>)"
proof -
  have b: "previousCpuInfo seeded = Some (Fin 85, Fin 100)"
    by (simp add: seeded_eq)
  have l: "last_severity seeded = None"
    by (simp add: seeded_eq last_severity_def getLastSystemStatus_def initial_state_def)
  have c: "getCpuUsage (cpus env_high) (Some (Fin 85, Fin 100)) = (Some 67, Some (Fin 86, Fin 103))"
    by (simp add: env_high_def getCpuUsage_after)
  have a: "assess default_thresholds 67 (ram env_high) (getDiskUsage (df env_high)) =
      (Warning, [''RAM usage high: 90% used (900MB / 1000MB)''])"
    by (simp add: env_high_def getDiskUsage_def assess_high)
  show ?thesis
    by (simp add: checkSystemHealth_sample [OF b c a] l sample_messages_def)
       (simp add: env_high_def getDiskUsage_def seeded_eq initial_state_def)
qed

lemma check_still_high:
  "fst (checkSystemHealth default_thresholds env_still_high warned) =
     Checked Warning 67 (ram_at 90) None (Some [''RAM usage high: 90% used (900MB / 1000MB)''])"
proof -
  have b: "previousCpuInfo warned = Some (Fin 86, Fin 103)"
    by (simp add: warned_def check_high)
  have c: "getCpuUsage (cpus env_still_high) (Some (Fin 86, Fin 103)) =
      (Some 67, Some (Fin 87, Fin 106))"
    by (simp add: env_still_high_def getCpuUsage_later)
  have a: "assess default_thresholds 67 (ram env_still_high) (getDiskUsage (df env_still_high)) =
      (Warning, [''RAM usage high: 90% used (900MB / 1000MB)''])"
    by (simp add: env_still_high_def getDiskUsage_def assess_high)
  show ?thesis
    by (simp add: checkSystemHealth_sample [OF b c a])
       (simp add: env_still_high_def getDiskUsage_def)
qed

lemma sample_messages_length: "length (sample_messages P p r d S ws) \<le> 1"
  by (simp add: sample_messages_def)

lemma sample_messages_alerts:
  "filter is_system_alert (sample_messages P p r d S ws) =
     (if P \<noteq> Some S \<and> S \<noteq> Healthy then [System_alert S p r d ws] else [])"
  by (simp add: sample_messages_def)

lemma sample_messages_recoveries:
  "filter is_system_recovery (sample_messages P p r d S ws) =
     (if S = Healthy \<and> P \<noteq> None \<and> P \<noteq> Some Healthy then [System_recovery p r d] else [])"
  by (simp add: sample_messages_def)

lemma sample_messages_split:
  "sample_messages P p r d S ws =
     filter is_system_alert (sample_messages P p r d S ws)
     @ filter is_system_recovery (sample_messages P p r d S ws)"
  by (simp add: sample_messages_def)

lemma checked_sent:
  assumes "checkSystemHealth th env s = (Checked S p r d w, s')"
  obtains ws where "sent (new_events s s') = sample_messages (last_severity s) p r d S ws"
    and "last_severity s' = Some S"
proof -
  from assms obtain b ws where
    m: "system_metrics s' = system_metrics s @ [sample_row p r d S ws]" and
    l: "log s' = log s @ [Query_metric]
           @ map Send (sample_messages (last_severity s) p r d S ws)
           @ [Insert_metric (sample_row p r d S ws)]"
    by (rule checked_sample)
  have "sent (new_events s s') = sample_messages (last_severity s) p r d S ws"
    by (simp add: new_events_append [OF l] sent_append sent_map_Send)
  moreover have "last_severity s' = Some S"
    using last_severity_append [OF m] by (simp add: sample_row_def)
  ultimately show ?thesis by (rule that)
qed

lemma max_Critical: "max x Critical = Critical" "max Critical x = Critical"
  by (cases x; simp add: max_def less_eq_severity_def)+

lemma max_Healthy: "max x Healthy = x" "max Healthy x = x"
  by (cases x; simp add: max_def less_eq_severity_def)+

lemma assess_busy:
  "assess default_thresholds 85 (ram_at 90) None =
     (Warning, [''RAM usage high: 90% used (900MB / 1000MB)'', ''CPU usage high: 85%''])"
  by code_simp

lemma check_busy:
  "checkSystemHealth default_thresholds env_busy warned =
     (Checked Warning 85 (ram_at 90) None
        (Some [''RAM usage high: 90% used (900MB / 1000MB)'', ''CPU usage high: 85%'']),
      warned\<lparr>previousCpuInfo := Some (Fin 101, Fin 203),
        system_metrics := system_metrics warned @
          [sample_row 85 (ram_at 90) None Warning
             [''RAM usage high: 90% used (900MB / 1000MB)'', ''CPU usage high: 85%'']],
        log := log warned @
          [Query_metric,
           Insert_metric (sample_row 85 (ram_at 90) None Warning
             [''RAM usage high: 90% used (900MB / 1000MB)'', ''CPU usage high: 85%''])]\<rparr>)"
proof -
  have b: "previousCpuInfo warned = Some (Fin 86, Fin 103)"
    by (simp add: warned_def check_high)
  have l: "last_severity warned = Some Warning"
    by (simp add: warned_def check_high last_severity_def getLastSystemStatus_def sample_row_def)
  have c: "getCpuUsage (cpus env_busy) (Some (Fin 86, Fin 103)) =
      (Some 85, Some (Fin 101, Fin 203))"
    by (simp add: env_busy_def getCpuUsage_busy)
  have a: "assess default_thresholds 85 (ram env_busy) (getDiskUsage (df env_busy)) =
      (Warning, [''RAM usage high: 90% used (900MB / 1000MB)'', ''CPU usage high: 85%''])"
    by (simp add: env_busy_def getDiskUsage_def assess_busy)
  show ?thesis
    by (simp add: checkSystemHealth_sample [OF b c a] l sample_messages_def)
       (simp add: env_busy_def getDiskUsage_def)
qed

lemma getDiskUsage_few_fields:
  "length (split_ws (trim out)) < 5 \<Longrightarrow> getDiskUsage (Some out) = None"
  by (simp add: getDiskUsage_def Let_def)

lemma getDiskUsage_garbled:
  "getDiskUsage (Some ''a b c d e'') =
     Some \<lparr>totalGB = None, usedGB = None, availGB = None, diskUsagePercent = None\<rparr>"
  by code_simp

section \<open>Facts about the probes\<close>

lemma runHttpTest_Response:
  "runHttpTest c (Response code) e s =
     (\<lparr>res_status = (if code < 400 then Success else Failed), responseTime = e,
       errorMessage = (if code < 400 then None else Some (''HTTP '' @ show_nat code)),
       res_name = name c\<rparr>,
      s\<lparr>tests := tests s @
           [\<lparr>test_type = ''http'', test_name = name c, target_col = target c,
             status = (if code < 400 then Success else Failed), response_time = e,
             error_message = (if code < 400 then None else Some (''HTTP '' @ show_nat code)),
             is_recovery = last_failed s (target c) ''http''\<rparr>],
        log := log s @
           [Query_test (target c) ''http'',
            Insert_test
              \<lparr>test_type = ''http'', test_name = name c, target_col = target c,
               status = (if code < 400 then Success else Failed), response_time = e,
               error_message = (if code < 400 then None else Some (''HTTP '' @ show_nat code)),
               is_recovery = last_failed s (target c) ''http''\<rparr>]
           @ map Send
               (if last_failed s (target c) ''http'' then [Http_recovery (name c) e]
                else if code < 400 then []
                else [Http_failed (name c) (''HTTP '' @ show_nat code) e])\<rparr>)"
  by (simp add: runHttpTest_def Let_def getLastTestResult_def insertTestResult_def
      sendToAllUsers_def last_failed_def show_str_def del: show_nat.simps
      split: list.splits option.splits)

lemma runHttpTest_Thrown:
  "\<exists>err. runHttpTest c (Thrown en em) e s =
     (\<lparr>res_status = Failed, responseTime = e, errorMessage = Some err, res_name = name c\<rparr>,
      s\<lparr>tests := tests s @
           [\<lparr>test_type = ''http'', test_name = name c, target_col = target c,
             status = Failed, response_time = e, error_message = Some err,
             is_recovery = False\<rparr>],
        log := log s @
           [Query_test (target c) ''http'',
            Insert_test
              \<lparr>test_type = ''http'', test_name = name c, target_col = target c,
               status = Failed, response_time = e, error_message = Some err,
               is_recovery = False\<rparr>,
            Send (Http_failed (name c) err e)]\<rparr>)"
  by (simp add: runHttpTest_def Let_def getLastTestResult_def insertTestResult_def
      sendToAllUsers_def)

lemma runTcpTest_Connected:
  "runTcpTest c Connected e s =
     (\<lparr>res_status = Success, responseTime = e, errorMessage = None, res_name = name c\<rparr>,
      s\<lparr>tests := tests s @
           [\<lparr>test_type = ''tcp'', test_name = name c, target_col = target c,
             status = Success, response_time = e, error_message = None,
             is_recovery = last_failed s (target c) ''tcp''\<rparr>],
        log := log s @
           [Query_test (target c) ''tcp'',
            Insert_test
              \<lparr>test_type = ''tcp'', test_name = name c, target_col = target c,
               status = Success, response_time = e, error_message = None,
               is_recovery = last_failed s (target c) ''tcp''\<rparr>]
           @ map Send (if last_failed s (target c) ''tcp'' then [Tcp_recovery (name c) e]
                       else [])\<rparr>)"
  by (simp add: runTcpTest_def Let_def getLastTestResult_def insertTestResult_def
      sendToAllUsers_def last_failed_def split: list.splits option.splits)

lemma runTcpTest_failed:
  "ended \<noteq> Connected \<Longrightarrow>
   \<exists>err. runTcpTest c ended e s =
     (\<lparr>res_status = Failed, responseTime = e, errorMessage = Some err, res_name = name c\<rparr>,
      s\<lparr>tests := tests s @
           [\<lparr>test_type = ''tcp'', test_name = name c, target_col = target c,
             status = Failed, response_time = e, error_message = Some err,
             is_recovery = False\<rparr>],
        log := log s @
           [Query_test (target c) ''tcp'',
            Insert_test
              \<lparr>test_type = ''tcp'', test_name = name c, target_col = target c,
               status = Failed, response_time = e, error_message = Some err,
               is_recovery = False\<rparr>,
            Send (Tcp_failed (name c) err e)]\<rparr>)"
  by (cases ended)
     (simp_all add: runTcpTest_def Let_def getLastTestResult_def insertTestResult_def
      sendToAllUsers_def)

lemma failed_once_eq:
  "failed_once =
     initial_state\<lparr>tests :=
        [\<lparr>test_type = ''http'', test_name = ''API'',
          target_col = ''https://api.example.com/health'', status = Failed,
          response_time = 10, error_message = Some ''HTTP 500'', is_recovery = False\<rparr>],
      log :=
        [Query_test ''https://api.example.com/health'' ''http'',
         Insert_test
           \<lparr>test_type = ''http'', test_name = ''API'',
            target_col = ''https://api.example.com/health'', status = Failed,
            response_time = 10, error_message = Some ''HTTP 500'', is_recovery = False\<rparr>,
         Send (Http_failed ''API'' ''HTTP 500'' 10)]\<rparr>"
  by code_simp

lemma last_failed_once: "last_failed failed_once ''https://api.example.com/health'' ''http''"
  by (simp add: failed_once_eq last_failed_def getLastTestResult_def initial_state_def)

lemma tcp_recovery_flag:
  "is_recovery (last (tests (snd (runTcpTest c ended e s)))) =
     (last_failed s (target c) ''tcp'' \<and> res_status (fst (runTcpTest c ended e s)) = Success)"
proof (cases "ended = Connected")
  case True
  then show ?thesis by (simp add: runTcpTest_Connected)
next
  case False
  from runTcpTest_failed [OF False, of c e s] show ?thesis by auto
qed

lemma http_thrown_recovery_flag:
  "is_recovery (last (tests (snd (runHttpTest c (Thrown en em) e s)))) = False
   \<and> res_status (fst (runHttpTest c (Thrown en em) e s)) = Failed"
  using runHttpTest_Thrown [of c en em e s] by auto

lemma http_response_recovery_flag:
  "is_recovery (last (tests (snd (runHttpTest c (Response code) e s)))) =
     last_failed s (target c) ''http''"
  by (simp add: runHttpTest_Response del: show_nat.simps)

lemma no_write_in_sends: "\<not> list_ex is_write (map Send ms)"
  by (induction ms) simp_all

lemma write_then_dispatch_sends: "write_then_dispatch (map Send ms)"
  by (induction ms) (simp_all add: no_write_in_sends)

lemma write_then_dispatch_probe:
  "write_then_dispatch (Query_test tgt ty # Insert_test row # map Send ms)"
  by (simp add: write_then_dispatch_sends)

lemma dispatch_then_write_sends:
  "dispatch_then_write (map Send ms @ [Insert_metric row])"
  by (induction ms) simp_all

lemma dispatch_then_write_check:
  "dispatch_then_write (Query_metric # map Send ms @ [Insert_metric row])"
  by (simp add: dispatch_then_write_sends)

lemma http_events:
  "\<exists>row ms. new_events s (snd (runHttpTest c f e s)) =
       Query_test (target c) ''http'' # Insert_test row # map Send ms
     \<and> length ms \<le> 1 \<and> tests (snd (runHttpTest c f e s)) = tests s @ [row]"
proof (cases f)
  case (Response code)
  let ?ms = "if last_failed s (target c) ''http'' then [Http_recovery (name c) e]
             else if code < 400 then []
             else [Http_failed (name c) (''HTTP '' @ show_nat code) e]"
  have "length ?ms \<le> 1" by simp
  then show ?thesis
    unfolding Response runHttpTest_Response new_events_def
    by (intro exI [of _ ?ms] exI conjI) (simp_all del: show_nat.simps)
next
  case (Thrown en em)
  from runHttpTest_Thrown [of c en em e s] obtain err where
    "runHttpTest c (Thrown en em) e s =
     (\<lparr>res_status = Failed, responseTime = e, errorMessage = Some err, res_name = name c\<rparr>,
      s\<lparr>tests := tests s @
           [\<lparr>test_type = ''http'', test_name = name c, target_col = target c,
             status = Failed, response_time = e, error_message = Some err,
             is_recovery = False\<rparr>],
        log := log s @
           [Query_test (target c) ''http'',
            Insert_test
              \<lparr>test_type = ''http'', test_name = name c, target_col = target c,
               status = Failed, response_time = e, error_message = Some err,
               is_recovery = False\<rparr>,
            Send (Http_failed (name c) err e)]\<rparr>)"
    by blast
  then show ?thesis
    unfolding Thrown new_events_def
    by (intro exI [of _ "[Http_failed (name c) err e]"] exI conjI) simp_all
qed

lemma tcp_events:
  "\<exists>row ms. new_events s (snd (runTcpTest c ended e s)) =
       Query_test (target c) ''tcp'' # Insert_test row # map Send ms
     \<and> length ms \<le> 1 \<and> tests (snd (runTcpTest c ended e s)) = tests s @ [row]"
proof (cases "ended = Connected")
  case True
  let ?ms = "if last_failed s (target c) ''tcp'' then [Tcp_recovery (name c) e] else []"
  have "length ?ms \<le> 1" by simp
  then show ?thesis
    unfolding True runTcpTest_Connected new_events_def
    by (intro exI [of _ ?ms] exI conjI) simp_all
next
  case False
  from runTcpTest_failed [OF False, of c e s] obtain err where
    "runTcpTest c ended e s =
     (\<lparr>res_status = Failed, responseTime = e, errorMessage = Some err, res_name = name c\<rparr>,
      s\<lparr>tests := tests s @
           [\<lparr>test_type = ''tcp'', test_name = name c, target_col = target c,
             status = Failed, response_time = e, error_message = Some err,
             is_recovery = False\<rparr>],
        log := log s @
           [Query_test (target c) ''tcp'',
            Insert_test
              \<lparr>test_type = ''tcp'', test_name = name c, target_col = target c,
               status = Failed, response_time = e, error_message = Some err,
               is_recovery = False\<rparr>,
            Send (Tcp_failed (name c) err e)]\<rparr>)"
    by blast
  then show ?thesis
    unfolding new_events_def
    by (intro exI [of _ "[Tcp_failed (name c) err e]"] exI conjI) simp_all
qed

section \<open>Facts about splitting and trimming\<close>

lemma split_on_not_Nil: "split_on c s \<noteq> []"
  by (induction s) (auto split: list.splits)

lemma hd_split_on: "hd (split_on c s) = takeWhile (\<lambda>x. x \<noteq> c) s"
  by (induction s) (auto split: list.splits simp: split_on_not_Nil)

lemma split_on_no_sep: "c \<notin> set s \<Longrightarrow> split_on c s = [s]"
  by (induction s) auto

lemma split_on_append:
  "c \<notin> set a \<Longrightarrow> split_on c (a @ c # b) = a # split_on c b"
  by (induction a) auto

lemma length_split_on: "length (split_on c s) = Suc (length (filter (\<lambda>x. x = c) s))"
  by (induction s) (auto split: list.splits)

lemma last_split_on: "last (split_on c s) = rev (takeWhile (\<lambda>x. x \<noteq> c) (rev s))"
proof (induction s)
  case Nil
  then show ?case by simp
next
  case (Cons x xs)
  show ?case
  proof (cases "c \<in> set xs")
    case True
    then have t: "takeWhile (\<lambda>x. x \<noteq> c) (rev xs @ [x]) = takeWhile (\<lambda>x. x \<noteq> c) (rev xs)"
      by (simp add: takeWhile_append1)
    from True have "filter (\<lambda>x. x = c) xs \<noteq> []"
      by (simp add: filter_empty_conv)
    then have "2 \<le> length (split_on c xs)"
      by (simp add: length_split_on Suc_le_eq)
    then obtain w v ws where "split_on c xs = w # v # ws"
      by (cases "split_on c xs"; cases "tl (split_on c xs)") auto
    then have "last (split_on c (x # xs)) = last (split_on c xs)"
      by simp
    then show ?thesis using Cons t by simp
  next
    case False
    then have a: "\<And>y. y \<in> set (rev xs) \<Longrightarrow> y \<noteq> c" by auto
    have "takeWhile (\<lambda>x. x \<noteq> c) (rev xs @ [x]) = rev xs @ takeWhile (\<lambda>x. x \<noteq> c) [x]"
      using a by (rule takeWhile_append2)
    then show ?thesis
      using False by (simp add: split_on_no_sep)
  qed
qed

lemma parse_loop_map: "parse_loop cs acc = acc @ map parse_entry cs"
  by (induction cs arbitrary: acc) simp_all

lemma dropWhile_snoc_keep:
  "\<not> P y \<Longrightarrow> dropWhile P (ys @ [y]) = dropWhile P ys @ [y]"
  by (induction ys) simp_all

lemma trim_trim: "trim (trim s) = trim s"
proof (cases "dropWhile is_ws s")
  case Nil
  show ?thesis unfolding trim_def Nil by simp
next
  case (Cons y ys)
  then have y: "\<not> is_ws y"
    using hd_dropWhile [of is_ws s] by auto
  let ?w = "dropWhile is_ws (rev ys)"
  have t: "trim s = y # rev ?w"
    using y by (simp add: trim_def Cons dropWhile_snoc_keep)
  have "trim (y # rev ?w) = rev (dropWhile is_ws (?w @ [y]))"
    using y by (simp add: trim_def)
  also have "\<dots> = y # rev ?w"
    using y by (simp add: dropWhile_snoc_keep)
  finally show ?thesis by (simp add: t)
qed

lemma entries_trimmed: "e \<in> set (entries s) \<Longrightarrow> trim e = e \<and> e \<noteq> []"
  by (auto simp: entries_def trim_trim)

lemma parse_entry_named:
  assumes "CHR ''|'' \<notin> set a" "CHR ''|'' \<notin> set b"
  shows "parse_entry (a @ CHR ''|'' # b) = \<lparr>name = trim a, target = trim b\<rparr>"
  using assms by (simp add: parse_entry_def split_on_append split_on_no_sep)

lemma parse_entry_unnamed:
  assumes "CHR ''|'' \<notin> set e" "trim e = e"
  shows "parse_entry e = \<lparr>name = derived_name e, target = e\<rparr>"
  using assms
  by (simp add: parse_entry_def split_on_no_sep derived_name_def after_last_def
      before_first_def str_or_def last_split_on hd_split_on)

section \<open>The first CPU sample and the range of the later ones\<close>

text \<open>
  Claim C5. With no baseline, \<open>getCpuUsage\<close> returns no percentage and
  \<open>checkSystemHealth\<close> answers \<open>Initializing\<close>, changing nothing but the baseline: no row
  is inserted and nothing is sent. From then on every call of the sequence yields a checked
  sample whose CPU percentage lies between 0 and 100. With a baseline the sampler always
  returns a percentage in that range, whatever the two readings are, and exactly 100 when
  the total-tick difference is zero.
\<close>

theorem first_sample_indeterminate_later_samples_bounded:
  "(previousCpuInfo s = None \<longrightarrow>
      fst (getCpuUsage (cpus env) (previousCpuInfo s)) = None
      \<and> checkSystemHealth th env s =
          (Initializing, s\<lparr>previousCpuInfo := Some (cpu_reading (cpus env))\<rparr>)
      \<and> (\<exists>rs. fst (run_checks th (env # envs) s) = Initializing # rs
             \<and> list_all cpu_in_range rs))
   \<and> (\<exists>p. getCpuUsage cs (Some b) = (Some p, Some (cpu_reading cs)) \<and> 0 \<le> p \<and> p \<le> 100)
   \<and> (js_sub (snd (cpu_reading cs)) (snd b) = Fin 0 \<longrightarrow>
        fst (getCpuUsage cs (Some b)) = Some 100)"
proof (intro conjI impI)
  assume n: "previousCpuInfo s = None"
  then show "fst (getCpuUsage (cpus env) (previousCpuInfo s)) = None"
    by (simp add: getCpuUsage_None)
  show i: "checkSystemHealth th env s =
      (Initializing, s\<lparr>previousCpuInfo := Some (cpu_reading (cpus env))\<rparr>)"
    by (rule check_initializing [OF n])
  have "list_all cpu_in_range
          (fst (run_checks th envs (s\<lparr>previousCpuInfo := Some (cpu_reading (cpus env))\<rparr>)))"
    by (rule run_checks_in_range) simp
  then show "\<exists>rs. fst (run_checks th (env # envs) s) = Initializing # rs
      \<and> list_all cpu_in_range rs"
    by (auto simp: i split: prod.splits)
next
  show "\<exists>p. getCpuUsage cs (Some b) = (Some p, Some (cpu_reading cs)) \<and> 0 \<le> p \<and> p \<le> 100"
    by (rule getCpuUsage_Some)
next
  assume "js_sub (snd (cpu_reading cs)) (snd b) = Fin 0"
  then show "fst (getCpuUsage cs (Some b)) = Some 100"
    by (rule getCpuUsage_zero_delta)
qed

text \<open>The statement at the start of the process and at a reading equal to the baseline.\<close>

theorem first_sample_indeterminate_later_samples_bounded_witness:
  "previousCpuInfo initial_state = None
   \<and> js_sub (snd (cpu_reading cores_before)) (snd (Fin 85, Fin 100)) = Fin 0
   \<and> checkSystemHealth default_thresholds
         \<lparr>cpus = cores_before, ram = ram_at 50, df = None\<rparr> initial_state =
       (Initializing, initial_state\<lparr>previousCpuInfo := Some (Fin 85, Fin 100)\<rparr>)
   \<and> fst (getCpuUsage cores_before (Some (Fin 85, Fin 100))) = Some 100"
proof -
  have h1: "previousCpuInfo initial_state = None"
    by (simp add: initial_state_def)
  have h2: "js_sub (snd (cpu_reading cores_before)) (snd (Fin 85, Fin 100)) = Fin 0"
    by (simp add: cpu_reading_before fl_zero)
  show ?thesis
    using first_sample_indeterminate_later_samples_bounded
      [of initial_state "\<lparr>cpus = cores_before, ram = ram_at 50, df = None\<rparr>"
        default_thresholds "[]" cores_before
        "(Fin 85, Fin 100)"] h1 h2
    by (simp add: cpu_reading_before)
qed

section \<open>The CPU percentage is a truncated quotient of doubles\<close>

text \<open>
  Claim C8, as stated, fails. On one core, with 1 idle tick out of 3, the exact value is
  \<open>200/3\<close> and the sampler returns 67: the quotient is truncated. On three cores, with
  the idle sum going from 0 to 1 and the tick sum from 7 to 17, the exact value is 90
  and the sampler returns 91: the averages and their quotient are rounded to doubles,
  and the quotient \<open>9.999999999999998\<close> is truncated to 9.
\<close>

theorem exact_quotient_counterexample:
  "fst (getCpuUsage cores_after (snd (getCpuUsage cores_before None))) = Some 67
   \<and> exact_cpu_pct (86 - 85) (103 - 100) = 200 / 3
   \<and> map_option rat_of_int (fst (getCpuUsage cores_after (snd (getCpuUsage cores_before None))))
       \<noteq> Some (exact_cpu_pct (86 - 85) (103 - 100))
   \<and> fst (getCpuUsage three_after (snd (getCpuUsage three_before None))) = Some 91
   \<and> exact_cpu_pct (idle_avg three_after - idle_avg three_before)
         (tick_avg three_after - tick_avg three_before) = 90"
proof -
  have "fst (getCpuUsage cores_after (snd (getCpuUsage cores_before None))) = Some 67"
    by (simp add: getCpuUsage_None cpu_reading_before getCpuUsage_after)
  moreover have "exact_cpu_pct (86 - 85) (103 - 100) = 200 / 3"
    by (simp add: exact_cpu_pct_def)
  moreover have "fst (getCpuUsage three_after (snd (getCpuUsage three_before None))) = Some 91"
    by (simp add: getCpuUsage_None getCpuUsage_three)
  moreover have "exact_cpu_pct (idle_avg three_after - idle_avg three_before)
         (tick_avg three_after - tick_avg three_before) = 90"
    by (simp add: exact_cpu_pct_def idle_avg_def tick_avg_def idle_sum_def tick_sum_def
        three_before_def three_after_def)
  ultimately show ?thesis by simp
qed

text \<open>
  Claim C8, amended. With a baseline the sampler returns
  \<open>100 - ~~(100 * idle_delta / total_delta)\<close> clamped to \<open>[0, 100]\<close>, where the two
  differences, the product and the quotient are operations on doubles and \<open>~~\<close>
  truncates towards zero, giving 0 for a quotient that is not finite. The result is an
  integer and need not be the exact percentage. When the number of cores is a power of
  two and the tick sum is below \<open>2^46\<close>, nothing is rounded before the quotient: for
  \<open>0 \<le> idle_delta \<le> total_delta\<close> and \<open>0 < total_delta\<close> the result is then
  \<open>100 - \<lfloor>100 * idle_delta / total_delta\<rfloor>\<close> for the exact differences of the per-core
  averages, the exact percentage rounded up to the next integer. After every call the
  baseline is the current reading.
\<close>

theorem cpu_percentage_is_truncated:
  "(cpu_reading cs = (i, t) \<longrightarrow>
      getCpuUsage cs (Some (bi, bt)) =
        (Some (max 0 (min 100
           (100 - to_int32 (js_div (js_mul (Fin 100) (js_sub i bi)) (js_sub t bt))))),
         Some (i, t)))
   \<and> (length cs0 = 2 ^ k \<and> length cs = 2 ^ k \<and> k \<le> 52 \<and> tick_sum cs < 2 ^ 46
        \<and> idle_sum cs0 \<le> idle_sum cs
        \<and> idle_sum cs - idle_sum cs0 \<le> tick_sum cs - tick_sum cs0
        \<and> tick_sum cs0 < tick_sum cs \<longrightarrow>
        fst (getCpuUsage cs (Some (cpu_reading cs0))) =
          Some (100 - \<lfloor>100 * (idle_avg cs - idle_avg cs0) / (tick_avg cs - tick_avg cs0)\<rfloor>)
        \<and> exact_cpu_pct (idle_avg cs - idle_avg cs0) (tick_avg cs - tick_avg cs0)
            \<le> of_int (100 - \<lfloor>100 * (idle_avg cs - idle_avg cs0)
                                 / (tick_avg cs - tick_avg cs0)\<rfloor>)
        \<and> of_int (100 - \<lfloor>100 * (idle_avg cs - idle_avg cs0) / (tick_avg cs - tick_avg cs0)\<rfloor>)
            < exact_cpu_pct (idle_avg cs - idle_avg cs0) (tick_avg cs - tick_avg cs0) + 1)
   \<and> snd (getCpuUsage cs previous) = Some (cpu_reading cs)"
proof (intro conjI impI)
  assume "cpu_reading cs = (i, t)"
  then show "getCpuUsage cs (Some (bi, bt)) =
        (Some (max 0 (min 100
           (100 - to_int32 (js_div (js_mul (Fin 100) (js_sub i bi)) (js_sub t bt))))),
         Some (i, t))"
    by (rule getCpuUsage_unfold)
next
  assume a: "length cs0 = 2 ^ k \<and> length cs = 2 ^ k \<and> k \<le> 52 \<and> tick_sum cs < 2 ^ 46
        \<and> idle_sum cs0 \<le> idle_sum cs
        \<and> idle_sum cs - idle_sum cs0 \<le> tick_sum cs - tick_sum cs0
        \<and> tick_sum cs0 < tick_sum cs"
  let ?i = "idle_avg cs - idle_avg cs0"
  let ?t = "tick_avg cs - tick_avg cs0"
  let ?q = "100 * ?i / ?t"
  show "fst (getCpuUsage cs (Some (cpu_reading cs0))) = Some (100 - \<lfloor>?q\<rfloor>)"
    using a by (intro getCpuUsage_pow2) blast+
  have i: "?i = (of_nat (idle_sum cs) - of_nat (idle_sum cs0)) / 2 ^ k"
    using a by (simp add: idle_avg_def diff_divide_distrib)
  have t: "?t = (of_nat (tick_sum cs) - of_nat (tick_sum cs0)) / 2 ^ k"
    using a by (simp add: tick_avg_def diff_divide_distrib)
  have i0: "0 \<le> ?i" unfolding i using a by simp
  have t0: "0 < ?t" unfolding t using a by simp
  have "(of_nat (idle_sum cs) - of_nat (idle_sum cs0) :: rat)
      \<le> of_nat (tick_sum cs) - of_nat (tick_sum cs0)"
  proof -
    have "int (idle_sum cs) - int (idle_sum cs0) \<le> int (tick_sum cs) - int (tick_sum cs0)"
      using a by linarith
    then have "(of_int (int (idle_sum cs) - int (idle_sum cs0)) :: rat)
        \<le> of_int (int (tick_sum cs) - int (tick_sum cs0))"
      by (simp only: of_int_le_iff)
    then show ?thesis by simp
  qed
  then have it: "?i \<le> ?t" unfolding i t by (simp add: divide_right_mono)
  have q0: "0 \<le> ?q" using i0 t0 by simp
  have q1: "?q \<le> 100" using it t0 by (simp add: divide_le_eq)
  have e: "exact_cpu_pct ?i ?t = 100 - ?q"
    using q0 q1 by (simp add: exact_cpu_pct_def)
  have "of_int \<lfloor>?q\<rfloor> \<le> ?q" by simp
  then show "exact_cpu_pct ?i ?t \<le> of_int (100 - \<lfloor>?q\<rfloor>)"
    unfolding e by simp
  have "?q < of_int \<lfloor>?q\<rfloor> + 1" by linarith
  then show "of_int (100 - \<lfloor>?q\<rfloor>) < exact_cpu_pct ?i ?t + 1"
    unfolding e by simp
next
  show "snd (getCpuUsage cs previous) = Some (cpu_reading cs)"
  proof (cases previous)
    case None
    then show ?thesis by (simp add: getCpuUsage_None)
  next
    case (Some b)
    obtain p where "getCpuUsage cs (Some b) = (Some p, Some (cpu_reading cs))"
      using getCpuUsage_Some by blast
    with Some show ?thesis by simp
  qed
qed

text \<open>The statement at the two single-core readings.\<close>

theorem cpu_percentage_is_truncated_witness:
  "cpu_reading cores_after = (Fin 86, Fin 103)
   \<and> length cores_before = 2 ^ 0 \<and> length cores_after = 2 ^ 0 \<and> (0::nat) \<le> 52
   \<and> tick_sum cores_after < 2 ^ 46
   \<and> idle_sum cores_before \<le> idle_sum cores_after
   \<and> idle_sum cores_after - idle_sum cores_before
       \<le> tick_sum cores_after - tick_sum cores_before
   \<and> tick_sum cores_before < tick_sum cores_after
   \<and> fst (getCpuUsage cores_after (Some (cpu_reading cores_before))) = Some 67
   \<and> snd (getCpuUsage cores_after (Some (cpu_reading cores_before))) = Some (Fin 86, Fin 103)"
proof -
  have h: "cpu_reading cores_after = (Fin 86, Fin 103)"
    by (rule cpu_reading_after)
  have a: "length cores_before = 2 ^ 0 \<and> length cores_after = 2 ^ 0 \<and> (0::nat) \<le> 52
   \<and> tick_sum cores_after < 2 ^ 46
   \<and> idle_sum cores_before \<le> idle_sum cores_after
   \<and> idle_sum cores_after - idle_sum cores_before
       \<le> tick_sum cores_after - tick_sum cores_before
   \<and> tick_sum cores_before < tick_sum cores_after"
    by (simp add: sums_before sums_after)
  have f: "\<lfloor>100 * (idle_avg cores_after - idle_avg cores_before)
      / (tick_avg cores_after - tick_avg cores_before)\<rfloor> = 33"
    by (simp add: idle_avg_def tick_avg_def sums_before sums_after floor_100_3)
  have "fst (getCpuUsage cores_after (Some (cpu_reading cores_before))) =
          Some (100 - \<lfloor>100 * (idle_avg cores_after - idle_avg cores_before)
            / (tick_avg cores_after - tick_avg cores_before)\<rfloor>)
      \<and> snd (getCpuUsage cores_after (Some (cpu_reading cores_before))) =
          Some (cpu_reading cores_after)"
    using cpu_percentage_is_truncated [of cores_after "Fin 86" "Fin 103" "Fin 85" "Fin 100"
        cores_before 0 "Some (cpu_reading cores_before)"] h a
    by blast
  then have "fst (getCpuUsage cores_after (Some (cpu_reading cores_before))) = Some 67
      \<and> snd (getCpuUsage cores_after (Some (cpu_reading cores_before))) = Some (Fin 86, Fin 103)"
    by (simp only: f h) simp
  with h a show ?thesis by blast
qed

section \<open>System alerts fire on a change of severity only\<close>

text \<open>
  Claim C2. Let a health check produce a sample of severity \<open>S\<close>, and let \<open>P\<close> be the
  last persisted severity, if any. A system alert is sent iff \<open>S\<close> differs from \<open>P\<close> and
  is not Healthy; a recovery message is sent iff \<open>S\<close> is Healthy and \<open>P\<close> exists and is
  not Healthy; nothing else is sent, and \<open>S\<close> is the persisted severity afterwards. Hence
  a second check in a row with the same non-healthy severity sends nothing, and when the
  first of the two changed the severity, that first one sent exactly one alert.
\<close>

theorem system_alert_only_on_severity_change:
  assumes "checkSystemHealth th env s = (Checked S p r d w, s')"
  shows "(alerts_sent s s' \<noteq> [] \<longleftrightarrow> last_severity s \<noteq> Some S \<and> S \<noteq> Healthy)
    \<and> (recoveries_sent s s' \<noteq> [] \<longleftrightarrow>
         S = Healthy \<and> last_severity s \<noteq> None \<and> last_severity s \<noteq> Some Healthy)
    \<and> sent (new_events s s') = alerts_sent s s' @ recoveries_sent s s'
    \<and> length (sent (new_events s s')) \<le> 1
    \<and> last_severity s' = Some S
    \<and> (S \<noteq> Healthy \<and> checkSystemHealth th env2 s' = (Checked S p2 r2 d2 w2, s'') \<longrightarrow>
         sent (new_events s' s'') = []
         \<and> (last_severity s \<noteq> Some S \<longrightarrow>
              length (alerts_sent s s') = 1 \<and> length (alerts_sent s' s'') = 0))"
proof -
  from assms obtain ws where
    e: "sent (new_events s s') = sample_messages (last_severity s) p r d S ws" and
    l: "last_severity s' = Some S"
    by (rule checked_sent)
  have a: "alerts_sent s s' =
      (if last_severity s \<noteq> Some S \<and> S \<noteq> Healthy then [System_alert S p r d ws] else [])"
    by (simp add: alerts_sent_def e sample_messages_alerts)
  have c: "recoveries_sent s s' =
      (if S = Healthy \<and> last_severity s \<noteq> None \<and> last_severity s \<noteq> Some Healthy
       then [System_recovery p r d] else [])"
    by (simp add: recoveries_sent_def e sample_messages_recoveries)
  have two: "sent (new_events s' s'') = [] \<and> alerts_sent s' s'' = []"
    if h: "S \<noteq> Healthy" and n: "checkSystemHealth th env2 s' = (Checked S p2 r2 d2 w2, s'')"
  proof -
    from n obtain ws2 where
      "sent (new_events s' s'') = sample_messages (last_severity s') p2 r2 d2 S ws2"
      by (rule checked_sent)
    then show ?thesis
      using l h by (simp add: sample_messages_def alerts_sent_def)
  qed
  show ?thesis
  proof (intro conjI impI)
    show "(alerts_sent s s' \<noteq> []) = (last_severity s \<noteq> Some S \<and> S \<noteq> Healthy)"
      by (simp add: a)
    show "(recoveries_sent s s' \<noteq> []) =
        (S = Healthy \<and> last_severity s \<noteq> None \<and> last_severity s \<noteq> Some Healthy)"
      by (simp add: c)
    show "sent (new_events s s') = alerts_sent s s' @ recoveries_sent s s'"
      unfolding alerts_sent_def recoveries_sent_def e by (rule sample_messages_split)
    show "length (sent (new_events s s')) \<le> 1"
      unfolding e by (rule sample_messages_length)
    show "last_severity s' = Some S" by (rule l)
  next
    assume "S \<noteq> Healthy \<and> checkSystemHealth th env2 s' = (Checked S p2 r2 d2 w2, s'')"
    then show "sent (new_events s' s'') = []" using two by blast
  next
    assume h: "S \<noteq> Healthy \<and> checkSystemHealth th env2 s' = (Checked S p2 r2 d2 w2, s'')"
      and "last_severity s \<noteq> Some S"
    then show "length (alerts_sent s s') = 1" by (simp add: a)
    from h show "length (alerts_sent s' s'') = 0" using two by simp
  qed
qed

text \<open>Two checks in a row at Warning after the start of the process.\<close>

theorem system_alert_only_on_severity_change_witness:
  "checkSystemHealth default_thresholds env_high seeded =
     (Checked Warning 67 (ram_at 90) None (Some [''RAM usage high: 90% used (900MB / 1000MB)'']),
      warned)
   \<and> Warning \<noteq> Healthy
   \<and> checkSystemHealth default_thresholds env_still_high warned =
     (Checked Warning 67 (ram_at 90) None (Some [''RAM usage high: 90% used (900MB / 1000MB)'']),
      snd (checkSystemHealth default_thresholds env_still_high warned))
   \<and> last_severity seeded \<noteq> Some Warning
   \<and> length (alerts_sent seeded warned) = 1
   \<and> sent (new_events warned (snd (checkSystemHealth default_thresholds env_still_high warned)))
       = []"
proof -
  have h1: "checkSystemHealth default_thresholds env_high seeded =
     (Checked Warning 67 (ram_at 90) None (Some [''RAM usage high: 90% used (900MB / 1000MB)'']),
      warned)"
    by (simp add: warned_def check_high)
  have h2: "checkSystemHealth default_thresholds env_still_high warned =
     (Checked Warning 67 (ram_at 90) None (Some [''RAM usage high: 90% used (900MB / 1000MB)'']),
      snd (checkSystemHealth default_thresholds env_still_high warned))"
    using check_still_high by (simp add: prod_eq_iff)
  have h3: "last_severity seeded \<noteq> Some Warning"
    by (simp add: seeded_eq last_severity_def getLastSystemStatus_def initial_state_def)
  have h4: "Warning \<noteq> Healthy" by simp
  show ?thesis
    using system_alert_only_on_severity_change [OF h1, of env_still_high 67 "ram_at 90" None
        "Some [''RAM usage high: 90% used (900MB / 1000MB)'']"
        "snd (checkSystemHealth default_thresholds env_still_high warned)"] h1 h2 h3 h4
    by blast
qed

section \<open>The overall severity is the maximum over the resources\<close>

text \<open>
  Claim C6. The severity of a sample is the maximum of the buckets of CPU, RAM and disk,
  each taken with its own two thresholds, absent disk metrics adding nothing; it is the
  severity returned and persisted. With RAM thresholds 85 and 95, RAM at 90 percent is in
  bucket Warning, which is the overall severity when CPU and disk are healthy, and RAM at
  96 percent makes the overall severity Critical whatever CPU and disk are.
\<close>

theorem overall_severity_is_maximum:
  "fst (assess th p r d) = max (cpu_severity th p) (max (ram_severity th r) (disk_severity th d))
   \<and> (checkSystemHealth th env s = (Checked S p r d w, s') \<longrightarrow>
        S = max (cpu_severity th p) (max (ram_severity th r) (disk_severity th d))
        \<and> (\<exists>row. system_metrics s' = system_metrics s @ [row] \<and> metric_status row = S))
   \<and> (RAM_WARNING_THRESHOLD th = 85 \<and> RAM_CRITICAL_THRESHOLD th = 95 \<and> usagePercent r = 90 \<longrightarrow>
        ram_severity th r = Warning
        \<and> (cpu_severity th p = Healthy \<and> disk_severity th d = Healthy \<longrightarrow>
             fst (assess th p r d) = Warning))
   \<and> (RAM_WARNING_THRESHOLD th = 85 \<and> RAM_CRITICAL_THRESHOLD th = 95 \<and> usagePercent r = 96 \<longrightarrow>
        ram_severity th r = Critical \<and> fst (assess th p r d) = Critical)"
proof (intro conjI impI)
  show m: "fst (assess th p r d) =
      max (cpu_severity th p) (max (ram_severity th r) (disk_severity th d))"
    by (rule assess_status)
  {
    assume c: "checkSystemHealth th env s = (Checked S p r d w, s')"
    from c obtain b ws where a: "assess th p (ram env) (getDiskUsage (df env)) = (S, ws)"
      and e: "r = ram env" "d = getDiskUsage (df env)"
      and r: "system_metrics s' = system_metrics s @ [sample_row p r d S ws]"
      by (rule checked_sample)
    from a e have "fst (assess th p r d) = S" by simp
    then show "S = max (cpu_severity th p) (max (ram_severity th r) (disk_severity th d))"
      using m by simp
    show "\<exists>row. system_metrics s' = system_metrics s @ [row] \<and> metric_status row = S"
      using r by (auto simp: sample_row_def)
  }
  {
    assume h: "RAM_WARNING_THRESHOLD th = 85 \<and> RAM_CRITICAL_THRESHOLD th = 95
        \<and> usagePercent r = 90"
    then show w: "ram_severity th r = Warning"
      by (simp add: ram_severity_def bucket_def)
    assume "cpu_severity th p = Healthy \<and> disk_severity th d = Healthy"
    then show "fst (assess th p r d) = Warning"
      using w by (simp add: m max_Healthy)
  }
  {
    assume h: "RAM_WARNING_THRESHOLD th = 85 \<and> RAM_CRITICAL_THRESHOLD th = 95
        \<and> usagePercent r = 96"
    then show c: "ram_severity th r = Critical"
      by (simp add: ram_severity_def bucket_def)
    show "fst (assess th p r d) = Critical"
      by (simp add: m c max_Critical)
  }
qed

text \<open>The check with memory at 90 percent, and the assessment at 96 percent.\<close>

theorem overall_severity_is_maximum_witness:
  "checkSystemHealth default_thresholds env_high seeded =
     (Checked Warning 67 (ram_at 90) None (Some [''RAM usage high: 90% used (900MB / 1000MB)'']),
      warned)
   \<and> RAM_WARNING_THRESHOLD default_thresholds = 85
   \<and> RAM_CRITICAL_THRESHOLD default_thresholds = 95
   \<and> usagePercent (ram_at 90) = 90 \<and> usagePercent (ram_at 96) = 96
   \<and> cpu_severity default_thresholds 67 = Healthy
   \<and> disk_severity default_thresholds None = Healthy
   \<and> Warning = max (cpu_severity default_thresholds 67)
                  (max (ram_severity default_thresholds (ram_at 90))
                     (disk_severity default_thresholds None))
   \<and> fst (assess default_thresholds 67 (ram_at 90) None) = Warning
   \<and> fst (assess default_thresholds 67 (ram_at 96) None) = Critical"
proof -
  have h1: "checkSystemHealth default_thresholds env_high seeded =
     (Checked Warning 67 (ram_at 90) None (Some [''RAM usage high: 90% used (900MB / 1000MB)'']),
      warned)"
    by (simp add: warned_def check_high)
  have h2: "RAM_WARNING_THRESHOLD default_thresholds = 85"
    "RAM_CRITICAL_THRESHOLD default_thresholds = 95"
    by (simp_all add: default_thresholds_def)
  have h3: "usagePercent (ram_at 90) = 90" "usagePercent (ram_at 96) = 96"
    by (simp_all add: ram_at_def)
  have h4: "cpu_severity default_thresholds 67 = Healthy"
    "disk_severity default_thresholds None = Healthy"
    by (simp_all add: cpu_severity_def disk_severity_def bucket_def default_thresholds_def)
  show ?thesis
    using overall_severity_is_maximum [of default_thresholds 67 "ram_at 90" None env_high seeded
        Warning "Some [''RAM usage high: 90% used (900MB / 1000MB)'']" warned]
      overall_severity_is_maximum [of default_thresholds 67 "ram_at 96" None env_high seeded
        Warning "Some [''RAM usage high: 90% used (900MB / 1000MB)'']" warned]
      h1 h2 h3 h4
    by blast
qed

section \<open>The warning message and its order\<close>

text \<open>
  Claim C7, as stated, fails: with CPU at 85 percent and RAM at 90 percent the message
  names RAM first and CPU second.
\<close>

theorem warnings_list_ram_before_cpu_counterexample:
  "warning_message (last (system_metrics (snd (checkSystemHealth default_thresholds env_busy warned))))
     = Some ''RAM usage high: 90% used (900MB / 1000MB); CPU usage high: 85%''
   \<and> map warning_resource (snd (assess default_thresholds 85 (ram_at 90) None))
       = [Some RAM, Some CPU]
   \<and> map warning_resource (snd (assess default_thresholds 85 (ram_at 90) None))
       \<noteq> [Some CPU, Some RAM]"
  by (simp add: check_busy sample_row_def assess_busy warning_resource_def)

text \<open>
  Claim C7, amended. The warnings name exactly the resources at or above their warning
  threshold or their critical threshold, in the order RAM, CPU, disk, the disk only when
  its metrics are present; when each warning threshold is at most its critical threshold,
  these are the resources at or above their warning threshold. The persisted message is
  the warnings joined by \<open>''; ''\<close>, and it is absent exactly when no resource is named.
\<close>

theorem warnings_listed_in_source_order:
  "map warning_resource (snd (assess th p r d)) =
     map Some (filter (\<lambda>x. reaches_warning th p r d x \<or> reaches_critical th p r d x)
                 [RAM, CPU, Disk])
   \<and> (RAM_WARNING_THRESHOLD th \<le> RAM_CRITICAL_THRESHOLD th
        \<and> CPU_WARNING_THRESHOLD th \<le> CPU_CRITICAL_THRESHOLD th
        \<and> DISK_WARNING_THRESHOLD th \<le> DISK_CRITICAL_THRESHOLD th \<longrightarrow>
        map warning_resource (snd (assess th p r d)) =
          map Some (filter (reaches_warning th p r d) [RAM, CPU, Disk]))
   \<and> (checkSystemHealth th env s = (Checked S p r d w, s') \<longrightarrow>
        (\<exists>row. system_metrics s' = system_metrics s @ [row]
           \<and> warning_message row =
               (if snd (assess th p r d) = [] then None
                else Some (join ''; '' (snd (assess th p r d))))
           \<and> (warning_message row = None \<longleftrightarrow>
                filter (\<lambda>x. reaches_warning th p r d x \<or> reaches_critical th p r d x)
                  [RAM, CPU, Disk] = [])))"
proof (intro conjI impI)
  show m: "map warning_resource (snd (assess th p r d)) =
     map Some (filter (\<lambda>x. reaches_warning th p r d x \<or> reaches_critical th p r d x)
                 [RAM, CPU, Disk])"
    by (rule assess_warnings)
  {
    assume o: "RAM_WARNING_THRESHOLD th \<le> RAM_CRITICAL_THRESHOLD th
        \<and> CPU_WARNING_THRESHOLD th \<le> CPU_CRITICAL_THRESHOLD th
        \<and> DISK_WARNING_THRESHOLD th \<le> DISK_CRITICAL_THRESHOLD th"
    have "reaches_critical th p r d x \<longrightarrow> reaches_warning th p r d x" for x
      using o by (cases x; cases d) (auto simp: num_ge_def split: option.splits)
    then have "(\<lambda>x. reaches_warning th p r d x \<or> reaches_critical th p r d x) =
        reaches_warning th p r d"
      by auto
    then show "map warning_resource (snd (assess th p r d)) =
          map Some (filter (reaches_warning th p r d) [RAM, CPU, Disk])"
      using m by simp
  }
  {
    assume c: "checkSystemHealth th env s = (Checked S p r d w, s')"
    from c obtain b ws where a: "assess th p (ram env) (getDiskUsage (df env)) = (S, ws)"
      and e: "r = ram env" "d = getDiskUsage (df env)"
      and r: "system_metrics s' = system_metrics s @ [sample_row p r d S ws]"
      by (rule checked_sample)
    have ws: "snd (assess th p r d) = ws" using a e by simp
    have n: "(ws = []) =
        (filter (\<lambda>x. reaches_warning th p r d x \<or> reaches_critical th p r d x)
           [RAM, CPU, Disk] = [])"
    proof -
      have "(ws = []) = (map warning_resource ws = [])" by simp
      also have "\<dots> = (map Some (filter (\<lambda>x. reaches_warning th p r d x
            \<or> reaches_critical th p r d x) [RAM, CPU, Disk]) = [])"
        using m ws by simp
      finally show ?thesis by simp
    qed
    show "\<exists>row. system_metrics s' = system_metrics s @ [row]
           \<and> warning_message row =
               (if snd (assess th p r d) = [] then None
                else Some (join ''; '' (snd (assess th p r d))))
           \<and> (warning_message row = None \<longleftrightarrow>
                filter (\<lambda>x. reaches_warning th p r d x \<or> reaches_critical th p r d x)
                  [RAM, CPU, Disk] = [])"
    proof (intro exI conjI)
      show "system_metrics s' = system_metrics s @ [sample_row p r d S ws]" by (rule r)
      show "warning_message (sample_row p r d S ws) =
          (if snd (assess th p r d) = [] then None
           else Some (join ''; '' (snd (assess th p r d))))"
        by (simp add: sample_row_def ws)
      show "(warning_message (sample_row p r d S ws) = None) =
          (filter (\<lambda>x. reaches_warning th p r d x \<or> reaches_critical th p r d x)
             [RAM, CPU, Disk] = [])"
        unfolding n [symmetric] by (simp add: sample_row_def)
    qed
  }
qed

text \<open>The busy check under the default thresholds.\<close>

theorem warnings_listed_in_source_order_witness:
  "RAM_WARNING_THRESHOLD default_thresholds \<le> RAM_CRITICAL_THRESHOLD default_thresholds
   \<and> CPU_WARNING_THRESHOLD default_thresholds \<le> CPU_CRITICAL_THRESHOLD default_thresholds
   \<and> DISK_WARNING_THRESHOLD default_thresholds \<le> DISK_CRITICAL_THRESHOLD default_thresholds
   \<and> checkSystemHealth default_thresholds env_busy warned =
       (Checked Warning 85 (ram_at 90) None
          (Some [''RAM usage high: 90% used (900MB / 1000MB)'', ''CPU usage high: 85%'']),
        snd (checkSystemHealth default_thresholds env_busy warned))
   \<and> map warning_resource (snd (assess default_thresholds 85 (ram_at 90) None)) =
       map Some (filter (reaches_warning default_thresholds 85 (ram_at 90) None)
                   [RAM, CPU, Disk])"
proof -
  have h1: "RAM_WARNING_THRESHOLD default_thresholds \<le> RAM_CRITICAL_THRESHOLD default_thresholds
   \<and> CPU_WARNING_THRESHOLD default_thresholds \<le> CPU_CRITICAL_THRESHOLD default_thresholds
   \<and> DISK_WARNING_THRESHOLD default_thresholds \<le> DISK_CRITICAL_THRESHOLD default_thresholds"
    by (simp add: default_thresholds_def)
  have h2: "checkSystemHealth default_thresholds env_busy warned =
       (Checked Warning 85 (ram_at 90) None
          (Some [''RAM usage high: 90% used (900MB / 1000MB)'', ''CPU usage high: 85%'']),
        snd (checkSystemHealth default_thresholds env_busy warned))"
    by (simp add: check_busy)
  show ?thesis
    using warnings_listed_in_source_order [of default_thresholds 85 "ram_at 90" None env_busy
        warned Warning
        "Some [''RAM usage high: 90% used (900MB / 1000MB)'', ''CPU usage high: 85%'']"
        "snd (checkSystemHealth default_thresholds env_busy warned)"] h1 h2
    by blast
qed

section \<open>A failed disk query\<close>

text \<open>
  Claim C9. \<open>getDiskUsage\<close> returns nothing when the query fails and when its output has
  fewer than five fields. Whenever it returns nothing, or an object without numbers, a
  check past the baseline still returns a sample and persists it, with the three disk
  columns empty and the severity the maximum of the CPU and RAM buckets alone.
\<close>

theorem disk_failure_degrades_gracefully:
  "getDiskUsage None = None
   \<and> (length (split_ws (trim out)) < 5 \<longrightarrow> getDiskUsage (Some out) = None)
   \<and> no_disk_numbers None
   \<and> (previousCpuInfo s \<noteq> None \<and> no_disk_numbers (getDiskUsage (df env)) \<longrightarrow>
        (\<exists>S p w s' row.
           checkSystemHealth th env s = (Checked S p (ram env) (getDiskUsage (df env)) w, s')
           \<and> system_metrics s' = system_metrics s @ [row]
           \<and> disk_used_gb row = None \<and> disk_total_gb row = None
           \<and> disk_usage_percent row = None
           \<and> metric_status row = S
           \<and> S = max (cpu_severity th p) (ram_severity th (ram env))))"
proof (intro conjI impI)
  show "getDiskUsage None = None"
    by (simp add: getDiskUsage_def)
  show "length (split_ws (trim out)) < 5 \<Longrightarrow> getDiskUsage (Some out) = None"
    by (rule getDiskUsage_few_fields)
  show "no_disk_numbers None"
    by (simp add: no_disk_numbers_def)
  assume h: "previousCpuInfo s \<noteq> None \<and> no_disk_numbers (getDiskUsage (df env))"
  let ?d = "getDiskUsage (df env)"
  from h obtain b where b: "previousCpuInfo s = Some b" by auto
  obtain p where p: "getCpuUsage (cpus env) (Some b) = (Some p, Some (cpu_reading (cpus env)))"
    using getCpuUsage_Some by blast
  obtain S ws where a: "assess th p (ram env) ?d = (S, ws)"
    by (cases "assess th p (ram env) ?d")
  have n: "no_disk_numbers ?d" using h by simp
  then have "disk_severity th ?d = Healthy"
    by (simp add: no_disk_numbers_def disk_severity_def split: option.splits)
  moreover have "fst (assess th p (ram env) ?d) = S" using a by simp
  ultimately have m: "S = max (cpu_severity th p) (ram_severity th (ram env))"
    by (simp add: assess_status max_Healthy)
  let ?row = "sample_row p (ram env) ?d S ws"
  let ?s' = "s\<lparr>previousCpuInfo := Some (cpu_reading (cpus env)),
       system_metrics := system_metrics s @ [?row],
       log := log s @ [Query_metric]
         @ map Send (sample_messages (last_severity s) p (ram env) ?d S ws)
         @ [Insert_metric ?row]\<rparr>"
  have c: "checkSystemHealth th env s =
      (Checked S p (ram env) ?d (if ws \<noteq> [] then Some ws else None), ?s')"
    by (rule checkSystemHealth_sample [OF b p a])
  have r: "disk_used_gb ?row = None \<and> disk_total_gb ?row = None
      \<and> disk_usage_percent ?row = None \<and> metric_status ?row = S"
    using n by (simp add: sample_row_def no_disk_numbers_def split: option.splits)
  have "checkSystemHealth th env s =
          (Checked S p (ram env) ?d (if ws \<noteq> [] then Some ws else None), ?s')
      \<and> system_metrics ?s' = system_metrics s @ [?row]
      \<and> disk_used_gb ?row = None \<and> disk_total_gb ?row = None
      \<and> disk_usage_percent ?row = None
      \<and> metric_status ?row = S
      \<and> S = max (cpu_severity th p) (ram_severity th (ram env))"
    using c r m by simp
  then show "\<exists>S p w s' row.
           checkSystemHealth th env s = (Checked S p (ram env) ?d w, s')
           \<and> system_metrics s' = system_metrics s @ [row]
           \<and> disk_used_gb row = None \<and> disk_total_gb row = None
           \<and> disk_usage_percent row = None
           \<and> metric_status row = S
           \<and> S = max (cpu_severity th p) (ram_severity th (ram env))"
    by blast
qed

text \<open>A rejected query and an output of five words, after the baseline is seeded.\<close>

theorem disk_failure_degrades_gracefully_witness:
  "length (split_ws (trim '''')) < 5
   \<and> previousCpuInfo seeded \<noteq> None
   \<and> no_disk_numbers (getDiskUsage (df env_high))
   \<and> no_disk_numbers (getDiskUsage (df env_garbled))
   \<and> getDiskUsage (Some '''') = None
   \<and> (\<exists>S p w s' row.
           checkSystemHealth default_thresholds env_high seeded =
             (Checked S p (ram env_high) None w, s')
           \<and> system_metrics s' = system_metrics seeded @ [row]
           \<and> disk_used_gb row = None \<and> disk_total_gb row = None
           \<and> disk_usage_percent row = None
           \<and> metric_status row = S
           \<and> S = max (cpu_severity default_thresholds p)
                    (ram_severity default_thresholds (ram env_high)))
   \<and> (\<exists>S p w s' row.
           checkSystemHealth default_thresholds env_garbled seeded =
             (Checked S p (ram env_garbled) (getDiskUsage (Some ''a b c d e'')) w, s')
           \<and> system_metrics s' = system_metrics seeded @ [row]
           \<and> disk_used_gb row = None \<and> disk_total_gb row = None
           \<and> disk_usage_percent row = None
           \<and> metric_status row = S
           \<and> S = max (cpu_severity default_thresholds p)
                    (ram_severity default_thresholds (ram env_garbled)))"
proof -
  have h1: "length (split_ws (trim '''')) < 5"
    by (simp add: trim_def)
  have h2: "previousCpuInfo seeded \<noteq> None"
    by (simp add: seeded_eq)
  have h3: "getDiskUsage (df env_high) = None"
    by (simp add: env_high_def getDiskUsage_def)
  have h4: "no_disk_numbers (getDiskUsage (df env_high))"
    by (simp add: h3 no_disk_numbers_def)
  have h5: "df env_garbled = Some ''a b c d e''"
    by (simp add: env_garbled_def)
  have h6: "no_disk_numbers (getDiskUsage (df env_garbled))"
    by (simp add: h5 getDiskUsage_garbled no_disk_numbers_def)
  show ?thesis
    using disk_failure_degrades_gracefully [of "''''" seeded env_high default_thresholds]
      disk_failure_degrades_gracefully [of "''''" seeded env_garbled default_thresholds]
      h1 h2 h3 h4 h5 h6
    by (simp only:) blast
qed

section \<open>The recovery flag of a probe\<close>

text \<open>
  Claim C1. The TCP probe and the HTTP probe whose \<open>fetch\<close> throws set the flag as the
  claim says (\<open>tcp_recovery_flag\<close>, \<open>http_thrown_recovery_flag\<close>). The HTTP probe that
  receives a response sets it from the last stored result alone
  (\<open>http_response_recovery_flag\<close>): a second response with status 500 in a row is stored
  with outcome Failed and the recovery flag set.
\<close>

theorem http_error_after_failure_is_recorded_as_recovery:
  "map (\<lambda>r. (status r, is_recovery r))
     (tests (snd (runHttpTest api (Response 500) 12 failed_once))) =
   [(Failed, False), (Failed, True)]"
proof -
  have "show_nat 500 = ''500''" by code_simp
  then show ?thesis
    using last_failed_once
    by (simp add: runHttpTest_Response api_def del: show_nat.simps)
       (simp add: failed_once_eq initial_state_def)
qed

section \<open>The message a probe sends\<close>

text \<open>
  Claim C3. On that second response with status 500 the probe returns Failed and sends the
  recovery text, and no failure alert.
\<close>

theorem http_error_after_failure_sends_recovery_text:
  "res_status (fst (runHttpTest api (Response 500) 12 failed_once)) = Failed
   \<and> sent (new_events failed_once (snd (runHttpTest api (Response 500) 12 failed_once))) =
       [Http_recovery ''API'' 12]
   \<and> filter is_failure_alert
        (sent (new_events failed_once (snd (runHttpTest api (Response 500) 12 failed_once)))) = []
   \<and> filter is_recovery_alert
        (sent (new_events failed_once (snd (runHttpTest api (Response 500) 12 failed_once)))) =
       [Http_recovery ''API'' 12]"
proof -
  have "sent (new_events failed_once (snd (runHttpTest api (Response 500) 12 failed_once))) =
      [Http_recovery ''API'' 12]"
    using last_failed_once
    by (simp add: runHttpTest_Response api_def new_events_def del: show_nat.simps)
  then show ?thesis
    by (simp add: runHttpTest_Response del: show_nat.simps)
qed

section \<open>The order of the store write and the dispatch\<close>

text \<open>
  Claim C4, as stated, fails for the probes: a TCP probe that times out inserts its row
  and then sends the alert.
\<close>

theorem probe_row_written_before_alert_counterexample:
  "new_events initial_state (snd (runTcpTest db Timed_out 5000 initial_state)) =
     [Query_test ''db.internal:5432'' ''tcp'',
      Insert_test
        \<lparr>test_type = ''tcp'', test_name = ''DB'', target_col = ''db.internal:5432'',
         status = Failed, response_time = 5000, error_message = Some ''Connection timeout'',
         is_recovery = False\<rparr>,
      Send (Tcp_failed ''DB'' ''Connection timeout'' 5000)]
   \<and> \<not> dispatch_then_write
         (new_events initial_state (snd (runTcpTest db Timed_out 5000 initial_state)))"
proof -
  have "new_events initial_state (snd (runTcpTest db Timed_out 5000 initial_state)) =
     [Query_test ''db.internal:5432'' ''tcp'',
      Insert_test
        \<lparr>test_type = ''tcp'', test_name = ''DB'', target_col = ''db.internal:5432'',
         status = Failed, response_time = 5000, error_message = Some ''Connection timeout'',
         is_recovery = False\<rparr>,
      Send (Tcp_failed ''DB'' ''Connection timeout'' 5000)]"
    by (simp add: runTcpTest_def Let_def getLastTestResult_def insertTestResult_def
        sendToAllUsers_def new_events_def initial_state_def db_def)
  then show ?thesis by simp
qed

text \<open>
  Claim C4, amended. A system-health check appends its sample only after its alert or
  recovery message has been dispatched: its events are the read of the last status, the
  messages, then the insert. A probe, HTTP or TCP, reads the last result, inserts its row
  and only then dispatches its message, so there the store write precedes the dispatch.
  In both, the read of the last status precedes the write.
\<close>

theorem store_write_order_per_stream:
  "dispatch_then_write (new_events s (snd (checkSystemHealth th env s)))
   \<and> (checkSystemHealth th env s = (Checked S p r d w, s') \<longrightarrow>
        (\<exists>row ms. new_events s s' = Query_metric # map Send ms @ [Insert_metric row]
           \<and> system_metrics s' = system_metrics s @ [row]))
   \<and> (\<exists>row ms. new_events s (snd (runHttpTest c f e s)) =
          Query_test (target c) ''http'' # Insert_test row # map Send ms
        \<and> tests (snd (runHttpTest c f e s)) = tests s @ [row])
   \<and> (\<exists>row ms. new_events s (snd (runTcpTest c ended e s)) =
          Query_test (target c) ''tcp'' # Insert_test row # map Send ms
        \<and> tests (snd (runTcpTest c ended e s)) = tests s @ [row])
   \<and> write_then_dispatch (new_events s (snd (runHttpTest c f e s)))
   \<and> write_then_dispatch (new_events s (snd (runTcpTest c ended e s)))"
proof (intro conjI impI)
  have shape: "\<exists>row ms. new_events s s' = Query_metric # map Send ms @ [Insert_metric row]
           \<and> system_metrics s' = system_metrics s @ [row]"
    if c: "checkSystemHealth th env s = (Checked S p r d w, s')" for S p r d w s'
  proof -
    from c obtain b ws where
      m: "system_metrics s' = system_metrics s @ [sample_row p r d S ws]" and
      l: "log s' = log s @ [Query_metric]
           @ map Send (sample_messages (last_severity s) p r d S ws)
           @ [Insert_metric (sample_row p r d S ws)]"
      by (rule checked_sample)
    have "new_events s s' = Query_metric
        # map Send (sample_messages (last_severity s) p r d S ws)
        @ [Insert_metric (sample_row p r d S ws)]"
      using new_events_append [OF l] by simp
    with m show ?thesis by blast
  qed
  show "dispatch_then_write (new_events s (snd (checkSystemHealth th env s)))"
  proof (cases "previousCpuInfo s")
    case None
    then show ?thesis by (simp add: check_initializing new_events_def)
  next
    case (Some b)
    from check_checked [OF Some, of th env] obtain S p d w s' where
      c: "checkSystemHealth th env s = (Checked S p (ram env) d w, s')"
      by blast
    from shape [OF c] obtain row ms where
      "new_events s s' = Query_metric # map Send ms @ [Insert_metric row]"
      by blast
    then show ?thesis
      using c dispatch_then_write_check [of ms row] by simp
  qed
  show "\<exists>row ms. new_events s s' = Query_metric # map Send ms @ [Insert_metric row]
           \<and> system_metrics s' = system_metrics s @ [row]"
    if "checkSystemHealth th env s = (Checked S p r d w, s')"
    using that by (rule shape)
  from http_events [of s c f e] obtain row ms where
    h: "new_events s (snd (runHttpTest c f e s)) =
       Query_test (target c) ''http'' # Insert_test row # map Send ms"
    and ht: "tests (snd (runHttpTest c f e s)) = tests s @ [row]"
    by blast
  from h ht show "\<exists>row ms. new_events s (snd (runHttpTest c f e s)) =
          Query_test (target c) ''http'' # Insert_test row # map Send ms
        \<and> tests (snd (runHttpTest c f e s)) = tests s @ [row]"
    by blast
  show "write_then_dispatch (new_events s (snd (runHttpTest c f e s)))"
    unfolding h by (rule write_then_dispatch_probe)
  from tcp_events [of s c ended e] obtain row2 ms2 where
    t: "new_events s (snd (runTcpTest c ended e s)) =
       Query_test (target c) ''tcp'' # Insert_test row2 # map Send ms2"
    and tt: "tests (snd (runTcpTest c ended e s)) = tests s @ [row2]"
    by blast
  from t tt show "\<exists>row ms. new_events s (snd (runTcpTest c ended e s)) =
          Query_test (target c) ''tcp'' # Insert_test row # map Send ms
        \<and> tests (snd (runTcpTest c ended e s)) = tests s @ [row]"
    by blast
  show "write_then_dispatch (new_events s (snd (runTcpTest c ended e s)))"
    unfolding t by (rule write_then_dispatch_probe)
qed

text \<open>The check at Warning, the second failing HTTP probe and the TCP timeout.\<close>

theorem store_write_order_per_stream_witness:
  "checkSystemHealth default_thresholds env_high seeded =
     (Checked Warning 67 (ram_at 90) None (Some [''RAM usage high: 90% used (900MB / 1000MB)'']),
      warned)
   \<and> dispatch_then_write (new_events seeded warned)
   \<and> (\<exists>row ms. new_events seeded warned = Query_metric # map Send ms @ [Insert_metric row]
         \<and> system_metrics warned = system_metrics seeded @ [row])
   \<and> write_then_dispatch (new_events failed_once (snd (runHttpTest api (Response 500) 12 failed_once)))
   \<and> write_then_dispatch
        (new_events initial_state (snd (runTcpTest db Timed_out 5000 initial_state)))"
proof -
  have h1: "checkSystemHealth default_thresholds env_high seeded =
     (Checked Warning 67 (ram_at 90) None (Some [''RAM usage high: 90% used (900MB / 1000MB)'']),
      warned)"
    by (simp add: warned_def check_high)
  have w: "snd (checkSystemHealth default_thresholds env_high seeded) = warned"
    by (simp add: warned_def)
  show ?thesis
    using store_write_order_per_stream [where s = seeded and th = default_thresholds
        and env = env_high and S = Warning and p = 67 and r = "ram_at 90" and d = None
        and w = "Some [''RAM usage high: 90% used (900MB / 1000MB)'']" and s' = warned
        and c = api and f = "Response 500" and e = 12 and ended = Timed_out]
      store_write_order_per_stream [where s = failed_once and th = default_thresholds
        and env = env_high and c = api and f = "Response 500" and e = 12 and ended = Timed_out]
      store_write_order_per_stream [where s = initial_state and th = default_thresholds
        and env = env_high and c = db and f = "Response 500" and e = 5000 and ended = Timed_out]
      h1
    unfolding w by blast
qed

section \<open>parseTestConfig\<close>

text \<open>
  Claim C10. \<open>parseTestConfig\<close> returns one pair for each entry, in order, where the
  entries are the comma-separated pieces, trimmed, without the empty ones. An entry
  \<open>Name|target\<close> with a single \<open>|\<close> gives the trimmed name and the trimmed target. An
  entry with no \<open>|\<close> is its own target, and its name is the part after the last \<open>/\<close>
  (all of the target when it has no \<open>/\<close>), or, when that part is empty, the part before
  the first \<open>:\<close>, or, when that is empty as well, the target.
\<close>

theorem parseTestConfig_entries:
  "parseTestConfig s = map parse_entry (entries s)
   \<and> entries s = filter (\<lambda>e. e \<noteq> []) (map trim (split_on CHR '','' s))
   \<and> (\<forall>e \<in> set (entries s). trim e = e \<and> e \<noteq> [])
   \<and> (CHR ''|'' \<notin> set a \<and> CHR ''|'' \<notin> set b \<longrightarrow>
        parse_entry (a @ CHR ''|'' # b) = \<lparr>name = trim a, target = trim b\<rparr>)
   \<and> (CHR ''|'' \<notin> set e \<and> trim e = e \<longrightarrow>
        parse_entry e = \<lparr>name = derived_name e, target = e\<rparr>)"
proof (intro conjI impI ballI)
  show "parseTestConfig s = map parse_entry (entries s)"
    by (simp add: parseTestConfig_def entries_def parse_loop_map)
  show "entries s = filter (\<lambda>e. e \<noteq> []) (map trim (split_on CHR '','' s))"
    by (rule entries_def)
  show "trim e = e" "e \<noteq> []" if "e \<in> set (entries s)" for e
    using entries_trimmed [OF that] by simp_all
  show "parse_entry (a @ CHR ''|'' # b) = \<lparr>name = trim a, target = trim b\<rparr>"
    if "CHR ''|'' \<notin> set a \<and> CHR ''|'' \<notin> set b"
    using that by (simp add: parse_entry_named)
  show "parse_entry e = \<lparr>name = derived_name e, target = e\<rparr>"
    if "CHR ''|'' \<notin> set e \<and> trim e = e"
    using that by (simp add: parse_entry_unnamed)
qed

text \<open>A configuration with a named entry, an empty piece and two entries without a name.\<close>

theorem parseTestConfig_entries_witness:
  "CHR ''|'' \<notin> set ''API '' \<and> CHR ''|'' \<notin> set '' https://api.com/v1''
   \<and> CHR ''|'' \<notin> set ''https://x.org/'' \<and> trim ''https://x.org/'' = ''https://x.org/''
   \<and> CHR ''|'' \<notin> set ''github.com:443'' \<and> trim ''github.com:443'' = ''github.com:443''
   \<and> parse_entry ''API | https://api.com/v1'' = \<lparr>name = ''API'', target = ''https://api.com/v1''\<rparr>
   \<and> parse_entry ''https://x.org/'' = \<lparr>name = ''https'', target = ''https://x.org/''\<rparr>
   \<and> parse_entry ''github.com:443'' = \<lparr>name = ''github.com:443'', target = ''github.com:443''\<rparr>
   \<and> parseTestConfig ''API | https://api.com/v1 , ,github.com:443, https://x.org/'' =
       map parse_entry [''API | https://api.com/v1'', ''github.com:443'', ''https://x.org/'']"
proof -
  have h1: "CHR ''|'' \<notin> set ''API '' \<and> CHR ''|'' \<notin> set '' https://api.com/v1''"
    by simp
  have h2: "CHR ''|'' \<notin> set ''https://x.org/'' \<and> trim ''https://x.org/'' = ''https://x.org/''"
    by (simp add: trim_def is_ws_def)
  have h3: "CHR ''|'' \<notin> set ''github.com:443'' \<and> trim ''github.com:443'' = ''github.com:443''"
    by (simp add: trim_def is_ws_def)
  have t: "trim ''API '' = ''API''" "trim '' https://api.com/v1'' = ''https://api.com/v1''"
    by (simp_all add: trim_def is_ws_def)
  have d: "derived_name ''https://x.org/'' = ''https''"
    "derived_name ''github.com:443'' = ''github.com:443''"
    by (simp_all add: derived_name_def after_last_def before_first_def)
  have e: "entries ''API | https://api.com/v1 , ,github.com:443, https://x.org/'' =
      [''API | https://api.com/v1'', ''github.com:443'', ''https://x.org/'']"
    by code_simp
  have a: "''API '' @ CHR ''|'' # '' https://api.com/v1'' = ''API | https://api.com/v1''"
    by simp
  from parseTestConfig_entries
    [of "''API | https://api.com/v1 , ,github.com:443, https://x.org/''"
      "''API ''" "'' https://api.com/v1''" "''https://x.org/''"] h1 h2
  have 1: "parseTestConfig ''API | https://api.com/v1 , ,github.com:443, https://x.org/'' =
      map parse_entry (entries ''API | https://api.com/v1 , ,github.com:443, https://x.org/'')"
    and 2: "parse_entry (''API '' @ CHR ''|'' # '' https://api.com/v1'') =
      \<lparr>name = trim ''API '', target = trim '' https://api.com/v1''\<rparr>"
    and 3: "parse_entry ''https://x.org/'' =
      \<lparr>name = derived_name ''https://x.org/'', target = ''https://x.org/''\<rparr>"
    by blast+
  from parseTestConfig_entries [of "[]" "[]" "[]" "''github.com:443''"] h3
  have 4: "parse_entry ''github.com:443'' =
      \<lparr>name = derived_name ''github.com:443'', target = ''github.com:443''\<rparr>"
    by blast
  show ?thesis
    using h1 h2 h3 1 2 3 4 unfolding a t d e by blast
qed

end
